theory Spec2Isabelle
  imports Complex_Main "HOL-Library.AList"
begin

section \<open>Values, errors and tables\<close>

text \<open>
  The effort pipeline of \<^verbatim>\<open>catboost_model.py\<close>, \<^verbatim>\<open>model_storage.py\<close> and
  \<^verbatim>\<open>data_processor.py\<close>.

  A pandas cell of a numeric column is \<open>real option\<close>: \<open>None\<close> is NaN (a missing value),
  \<open>Some v\<close> a number. The operations the pipeline applies to effort values are comparisons,
  \<open>min\<close>, \<open>clip\<close> and selection, which are exact on floating-point numbers that are not
  NaN, so the order of the reals models them; quantiles and medians are taken over the
  reals. A fitted regressor returns a number for every row, never NaN. A table has the
  default row index \<open>0, 1, 2, ...\<close> that \<^verbatim>\<open>read_csv\<close> and \<^verbatim>\<open>read_excel\<close> give it
  (\<^verbatim>\<open>load_data\<close>), so a row label is the row's position, and its target column
  \<^verbatim>\<open>effortExpense\<close> is numeric.
\<close>

text \<open>
  The exceptions. \<open>LibraryError\<close> is an exception raised inside a call into scikit-learn or
  CatBoost, with its message; the others are Python's own classes.
\<close>

datatype error =
    ValueError string
  | FileNotFoundError string
  | AttributeError string
  | NotFittedError string
  | LibraryError string

text \<open>
  A table, column by column. \<open>numeric_cols\<close> are the columns that hold numbers (after
  \<^verbatim>\<open>pd.to_numeric\<close>), among them the calendar columns that \<^verbatim>\<open>prepare_features\<close> derives
  from \<^verbatim>\<open>effortDate\<close> with pandas' date accessors; \<open>text_cols\<close> are the columns that hold
  strings. The columns of a DataFrame have one length; a cell beyond the end of a shorter
  list reads as missing.
\<close>

record frame =
  effortExpense :: "real option list"
  numeric_cols :: "(string \<times> real option list) list"
  text_cols :: "(string \<times> string option list) list"

record predicted_frame = frame +
  is_missing_effort :: "bool list"
  is_over_limit :: "bool list"
  needs_prediction :: "bool list"
  effortExpense_predicted :: "real option list"
  effortExpense_final :: "real option list"

type_synonym feature_row = "real option list \<times> string option list"

record metrics =
  train_rmse :: real
  test_rmse :: real
  train_mae :: real
  test_mae :: real
  train_r2 :: real
  test_r2 :: real
  training_samples :: nat
  test_samples :: nat
  feature_importance :: "(string \<times> real) list"

text \<open>
  The parameter dictionary of the regressor, each value as its literal. A
  \<^verbatim>\<open>CatBoostRegressor\<close> object is either fresh from its constructor or fitted; a fitted one
  is the function from a feature row to its raw output.
\<close>

type_synonym params = "(string \<times> string) list"

datatype regressor = Unfitted params | Fitted "feature_row \<Rightarrow> real"

text \<open>
  The fields of \<^verbatim>\<open>CatBoostEffortModel\<close>. \<open>model = None\<close> is Python's \<^verbatim>\<open>self.model = None\<close>.
  \<open>scaler = None\<close> is a \<^verbatim>\<open>StandardScaler\<close> that has not been fitted; a fitted one is its
  \<^verbatim>\<open>transform\<close> on the numeric part of a row. The target column is always
  \<^verbatim>\<open>effortExpense\<close>. \<open>model_metrics = None\<close> is the empty dictionary.
\<close>

record effort_model =
  effort_limit :: real
  model :: "regressor option"
  scaler :: "(real option list \<Rightarrow> real option list) option"
  feature_columns :: "string list"
  categorical_columns :: "string list"
  is_trained :: bool
  model_metrics :: "metrics option"
  catboost_params :: params

definition init_catboost_params :: params where
  "init_catboost_params =
     [(''iterations'', ''200''), (''depth'', ''6''), (''learning_rate'', ''0.1''),
      (''loss_function'', ''RMSE''), (''eval_metric'', ''RMSE''), (''random_seed'', ''42''),
      (''verbose'', ''False''), (''early_stopping_rounds'', ''20''), (''l2_leaf_reg'', ''1''),
      (''bootstrap_type'', ''Bernoulli''), (''thread_count'', ''-1''), (''task_type'', ''CPU'')]"

definition init_effort_model :: "real \<Rightarrow> effort_model" where
  "init_effort_model cap =
     \<lparr>effort_limit = cap, model = None, scaler = None, feature_columns = [],
      categorical_columns = [], is_trained = False, model_metrics = None,
      catboost_params = init_catboost_params\<rparr>"

section \<open>pandas and numpy operations\<close>

definition dropna_values :: "real option list \<Rightarrow> real list" where
  "dropna_values xs = List.map_filter (\<lambda>x. x) xs"

text \<open>\<^verbatim>\<open>Series.median()\<close>: the missing values are skipped; NaN when nothing is left.\<close>

definition median :: "real option list \<Rightarrow> real option" where
  "median xs =
     (let s = sort (dropna_values xs); n = length s in
      if n = 0 then None
      else if odd n then Some (s ! (n div 2))
      else Some ((s ! (n div 2 - 1) + s ! (n div 2)) / 2))"

text \<open>\<^verbatim>\<open>Series.fillna(v)\<close>; filling with NaN changes nothing.\<close>

definition fillna :: "'a option \<Rightarrow> 'a option list \<Rightarrow> 'a option list" where
  "fillna v xs =
     (case v of None \<Rightarrow> xs
      | Some d \<Rightarrow> map (\<lambda>c. case c of None \<Rightarrow> Some d | Some x \<Rightarrow> Some x) xs)"

text \<open>\<^verbatim>\<open>np.clip(x, lo, hi)\<close> is \<^verbatim>\<open>minimum(maximum(x, lo), hi)\<close>.\<close>

definition np_clip :: "real \<Rightarrow> real \<Rightarrow> real \<Rightarrow> real" where
  "np_clip x lo hi = min (max x lo) hi"

text \<open>\<^verbatim>\<open>Series.clip(upper=hi)\<close>; a missing value stays missing.\<close>

definition clip_upper :: "real \<Rightarrow> real option list \<Rightarrow> real option list" where
  "clip_upper hi xs = map (map_option (\<lambda>v. min v hi)) xs"

definition isna :: "'a option \<Rightarrow> bool" where
  "isna c = (c = None)"

text \<open>\<^verbatim>\<open>series > limit\<close>; the comparison with NaN is False.\<close>

definition gt_limit :: "real \<Rightarrow> real option \<Rightarrow> bool" where
  "gt_limit cap c = (case c of None \<Rightarrow> False | Some v \<Rightarrow> v > cap)"

definition cell_at :: "(string \<times> 'a option list) list \<Rightarrow> string \<Rightarrow> nat \<Rightarrow> 'a option" where
  "cell_at cols c i =
     (case map_of cols c of None \<Rightarrow> None
      | Some vs \<Rightarrow> if i < length vs then vs ! i else None)"

definition columns :: "frame \<Rightarrow> string list" where
  "columns df = map fst (numeric_cols df) @ map fst (text_cols df)"

section \<open>\<^verbatim>\<open>CatBoostEffortModel.prepare_features\<close>\<close>

definition categorical_columns_const :: "string list" where
  "categorical_columns_const =
     [''msg_JobTitle'', ''msg_Community'', ''taskType'', ''CountryManagerForProject'', ''Email'']"

definition numerical_columns :: "string list" where
  "numerical_columns =
     [''effortTimeCosts'', ''billingRate_hourlyRate'',
      ''year'', ''month'', ''day'', ''dayofweek'', ''weekofyear'']"

text \<open>
  The loop over \<^verbatim>\<open>numerical_columns\<close>: each such column that the table has is filled with
  its own median, taken over the table at hand.
\<close>

definition fill_numeric :: "(string \<times> real option list) list \<Rightarrow> (string \<times> real option list) list" where
  "fill_numeric cols =
     map (\<lambda>(c, vs). if c \<in> set numerical_columns then (c, fillna (median vs) vs) else (c, vs)) cols"

definition fill_categorical ::
  "string list \<Rightarrow> (string \<times> string option list) list \<Rightarrow> (string \<times> string option list) list" where
  "fill_categorical cats cols =
     map (\<lambda>(c, vs). if c \<in> set cats then (c, fillna (Some ''Unknown'') vs) else (c, vs)) cols"

definition prepare_features :: "effort_model \<Rightarrow> frame \<Rightarrow> effort_model \<times> frame" where
  "prepare_features m df =
     (let cats = categorical_columns_const;
          feats = filter (\<lambda>c. c \<in> set (columns df)) (numerical_columns @ cats);
          m' = m\<lparr>categorical_columns := cats, feature_columns := feats\<rparr>;
          df' = df\<lparr>numeric_cols := fill_numeric (numeric_cols df),
                   text_cols := fill_categorical cats (text_cols df)\<rparr>
      in (m', df'))"

section \<open>\<^verbatim>\<open>CatBoostEffortModel.predict\<close>\<close>

text \<open>The row of \<^verbatim>\<open>prediction_rows[self.feature_columns]\<close> at position \<open>i\<close>.\<close>

definition feature_row_at :: "effort_model \<Rightarrow> frame \<Rightarrow> nat \<Rightarrow> feature_row" where
  "feature_row_at m df i =
     (map (\<lambda>c. cell_at (numeric_cols df) c i)
          (filter (\<lambda>c. c \<notin> set (categorical_columns m)) (feature_columns m)),
      map (\<lambda>c. cell_at (text_cols df) c i)
          (filter (\<lambda>c. c \<in> set (categorical_columns m)) (feature_columns m)))"

text \<open>
  The body of the loop over \<^verbatim>\<open>enumerate(prediction_rows.iterrows())\<close>: \<open>i\<close> is the position
  in \<^verbatim>\<open>predictions\<close>, \<open>idx\<close> the row label; the state is the pair of the columns
  \<^verbatim>\<open>effortExpense_predicted\<close> and \<^verbatim>\<open>effortExpense_final\<close>.
\<close>

definition apply_prediction ::
  "real \<Rightarrow> bool list \<Rightarrow> bool list \<Rightarrow> real list \<Rightarrow> nat \<times> nat \<Rightarrow>
   real option list \<times> real option list \<Rightarrow> real option list \<times> real option list" where
  "apply_prediction cap miss over predictions p st =
     (case p of (i, idx) \<Rightarrow> case st of (pred, fin) \<Rightarrow>
        let predicted_value = predictions ! i in
        if miss ! idx then
          let capped_prediction = min predicted_value cap in
          (pred[idx := Some capped_prediction], fin[idx := Some capped_prediction])
        else if over ! idx then
          (pred[idx := Some (min predicted_value cap)], fin[idx := Some cap])
        else (pred, fin))"

text \<open>The rows of \<^verbatim>\<open>predicted_rows\<close> whose predicted value exceeds the limit (pass 2).\<close>

definition high_predictions :: "real \<Rightarrow> nat list \<Rightarrow> real option list \<Rightarrow> nat list" where
  "high_predictions cap idxs pred = filter (\<lambda>idx. gt_limit cap (pred ! idx)) idxs"

definition force_cap ::
  "real \<Rightarrow> nat \<Rightarrow> real option list \<times> real option list \<Rightarrow> real option list \<times> real option list" where
  "force_cap cap idx st = (case st of (pred, fin) \<Rightarrow> (pred[idx := Some cap], fin[idx := Some cap]))"

text \<open>The labels of the rows that need a prediction, in table order.\<close>

definition prediction_rows :: "bool list \<Rightarrow> nat list" where
  "prediction_rows needs = filter (\<lambda>i. needs ! i) [0..<length needs]"

text \<open>
  Scaling and inference on the rows that need a prediction. The scaler is called only when
  there is a numeric feature; an unfitted scaler, a missing regressor and an unfitted
  regressor raise.
\<close>

definition raw_predictions :: "effort_model \<Rightarrow> frame \<Rightarrow> nat list \<Rightarrow> error + real list" where
  "raw_predictions m df idxs =
     (let X = map (feature_row_at m df) idxs;
          numerical_features = filter (\<lambda>c. c \<notin> set (categorical_columns m)) (feature_columns m)
      in case (if numerical_features \<noteq> [] then
                 (case scaler m of
                    None \<Rightarrow> Inl (NotFittedError ''This StandardScaler instance is not fitted yet.'')
                  | Some tr \<Rightarrow> Inr (map (\<lambda>(ns, cs). (tr ns, cs)) X))
               else Inr X) of
           Inl e \<Rightarrow> Inl e
         | Inr X_scaled \<Rightarrow>
             (case model m of
                None \<Rightarrow> Inl (AttributeError ''NoneType object has no attribute predict'')
              | Some (Unfitted ps) \<Rightarrow> Inl (LibraryError ''CatBoostError: model is not fitted'')
              | Some (Fitted reg) \<Rightarrow> Inr (map reg X_scaled)))"

text \<open>The three flag columns.\<close>

definition missing_flags :: "real option list \<Rightarrow> bool list" where
  "missing_flags tgt = map isna tgt"

definition over_flags :: "real \<Rightarrow> real option list \<Rightarrow> bool list" where
  "over_flags cap tgt = map (gt_limit cap) tgt"

definition needs_flags :: "real \<Rightarrow> real option list \<Rightarrow> bool list" where
  "needs_flags cap tgt = map (\<lambda>(a, b). a \<or> b) (zip (missing_flags tgt) (over_flags cap tgt))"

text \<open>
  Pass 1, on the prepared table: both result columns start as copies of the target; when
  some row needs a prediction, the raw outputs are clipped to \<open>[0, limit]\<close> and written by
  the loop.
\<close>

definition pass1 ::
  "effort_model \<Rightarrow> frame \<Rightarrow> error + (real option list \<times> real option list)" where
  "pass1 m df =
     (let cap = effort_limit m;
          tgt = effortExpense df;
          needs = needs_flags cap tgt;
          idxs = prediction_rows needs
      in if list_ex (\<lambda>b. b) needs then
           (case raw_predictions m df idxs of
              Inl e \<Rightarrow> Inl e
            | Inr raw \<Rightarrow>
                let predictions = map (\<lambda>x. np_clip x 0 cap) raw in
                Inr (fold (apply_prediction cap (missing_flags tgt) (over_flags cap tgt) predictions)
                       (enumerate 0 idxs) (tgt, tgt)))
         else Inr (tgt, tgt))"

text \<open>Pass 2: the rows that needed a prediction are scanned again and capped by force.\<close>

definition validation_sweep ::
  "real \<Rightarrow> nat list \<Rightarrow> real option list \<times> real option list \<Rightarrow> real option list \<times> real option list" where
  "validation_sweep cap idxs st =
     (if idxs \<noteq> [] \<and> high_predictions cap idxs (fst st) \<noteq> []
      then fold (force_cap cap) (high_predictions cap idxs (fst st)) st
      else st)"

text \<open>Pass 3: when some final value exceeds the limit, the whole column is clipped.\<close>

definition final_sweep :: "real \<Rightarrow> real option list \<Rightarrow> real option list" where
  "final_sweep cap fin =
     (if filter (gt_limit cap) fin \<noteq> [] then clip_upper cap fin else fin)"

definition predict :: "effort_model \<Rightarrow> frame \<Rightarrow> (error + predicted_frame) \<times> effort_model" where
  "predict m df =
     (let (m1, dfp) = prepare_features m df;
          cap = effort_limit m1;
          tgt = effortExpense dfp;
          idxs = prediction_rows (needs_flags cap tgt)
      in (case pass1 m1 dfp of
            Inl e \<Rightarrow> (Inl e, m1)
          | Inr st1 \<Rightarrow>
              (let (pred, fin) = validation_sweep cap idxs st1;
                   out = \<lparr>effortExpense = tgt, numeric_cols = numeric_cols dfp,
                          text_cols = text_cols dfp,
                          is_missing_effort = missing_flags tgt,
                          is_over_limit = over_flags cap tgt,
                          needs_prediction = needs_flags cap tgt,
                          effortExpense_predicted = pred,
                          effortExpense_final = final_sweep cap fin\<rparr>
               in (Inr out, m1))))"

section \<open>\<^verbatim>\<open>CatBoostEffortModel.train_model\<close>\<close>

text \<open>
  The calls into scikit-learn and CatBoost are parameters of the model: what they compute
  is not code of this repository. A call that raises returns \<open>Inl\<close> with the message.
  \<open>train_test_split\<close> takes the test fraction, the feature rows and the targets and returns
  \<^verbatim>\<open>(X_train, X_test, y_train, y_test)\<close>; \<open>scaler_fit\<close> is \<^verbatim>\<open>StandardScaler.fit\<close>, returning the
  fitted transform; \<open>grid_search\<close> is \<^verbatim>\<open>GridSearchCV(...).fit(...).best_params_\<close>;
  \<open>catboost_fit\<close> is \<^verbatim>\<open>CatBoostRegressor(**params).fit\<close> with the categorical indices and
  the evaluation set.
\<close>

record library =
  train_test_split ::
    "real \<Rightarrow> feature_row list \<Rightarrow> real list \<Rightarrow>
     string + (feature_row list \<times> feature_row list \<times> real list \<times> real list)"
  scaler_fit :: "real option list list \<Rightarrow> (real option list \<Rightarrow> real option list)"
  grid_search :: "params \<Rightarrow> feature_row list \<Rightarrow> real list \<Rightarrow> nat list \<Rightarrow> string + params"
  catboost_fit ::
    "params \<Rightarrow> feature_row list \<Rightarrow> real list \<Rightarrow> nat list \<Rightarrow> feature_row list \<Rightarrow> real list \<Rightarrow>
     string + (feature_row \<Rightarrow> real)"
  rmse :: "real list \<Rightarrow> real list \<Rightarrow> real"
  mean_absolute_error :: "real list \<Rightarrow> real list \<Rightarrow> real"
  r2_score :: "real list \<Rightarrow> real list \<Rightarrow> real"
  get_feature_importance :: "(feature_row \<Rightarrow> real) \<Rightarrow> real list"

text \<open>
  \<^verbatim>\<open>Series.quantile(q)\<close> with pandas' default linear interpolation between the two nearest
  order statistics; NaN on an empty series.
\<close>

definition quantile :: "real list \<Rightarrow> real \<Rightarrow> real option" where
  "quantile ys q =
     (if ys = [] then None
      else let s = sort ys;
               h = real (length s - 1) * q;
               lo = nat \<lfloor>h\<rfloor>;
               hi = min (lo + 1) (length s - 1)
           in Some (s ! lo + (h - real lo) * (s ! hi - s ! lo)))"

text \<open>Boolean indexing \<^verbatim>\<open>xs[mask]\<close>.\<close>

definition boolean_index :: "'a list \<Rightarrow> bool list \<Rightarrow> 'a list" where
  "boolean_index xs keep = map fst (filter snd (zip xs keep))"

text \<open>The labels of the rows that \<^verbatim>\<open>dropna(subset=[target])\<close> keeps.\<close>

definition dropna_rows :: "real option list \<Rightarrow> nat list" where
  "dropna_rows tgt = filter (\<lambda>i. \<not> isna (tgt ! i)) [0..<length tgt]"

definition insufficient_data_error :: error where
  "insufficient_data_error =
     ValueError ''Not enough training data. Need at least 10 rows with effort expense values.''"

text \<open>\<^verbatim>\<open>y.clip(upper=self.effort_limit)\<close> on a series without missing values.\<close>

definition cap_target :: "real \<Rightarrow> real list \<Rightarrow> real list" where
  "cap_target cap y = map (\<lambda>v. min v cap) y"

text \<open>
  The interquartile bounds of the capped target, \<^verbatim>\<open>(lower_bound, upper_bound)\<close>. A
  comparison with NaN is False, so without bounds the mask rejects every row.
\<close>

definition outlier_bounds :: "real list \<Rightarrow> (real \<times> real) option" where
  "outlier_bounds y_capped =
     (case quantile y_capped 0.25 of None \<Rightarrow> None
      | Some Q1 \<Rightarrow>
          (case quantile y_capped 0.75 of None \<Rightarrow> None
           | Some Q3 \<Rightarrow>
               let IQR = Q3 - Q1;
                   lower_bound = Q1 - 1.5 * IQR;
                   upper_bound = Q3 + 1.5 * IQR
               in Some (lower_bound, upper_bound)))"

definition outlier_mask :: "real list \<Rightarrow> bool list" where
  "outlier_mask y_capped =
     (case outlier_bounds y_capped of
        None \<Rightarrow> map (\<lambda>v. False) y_capped
      | Some (lower_bound, upper_bound) \<Rightarrow>
          map (\<lambda>v. v \<ge> lower_bound \<and> v \<le> upper_bound) y_capped)"

text \<open>\<^verbatim>\<open>dict.update\<close>: a key that is present keeps its place, a new key goes to the end.\<close>

definition dict_update :: "params \<Rightarrow> params \<Rightarrow> params" where
  "dict_update d u = fold (\<lambda>(k, v). AList.update k v) u d"

definition cat_feature_indices :: "effort_model \<Rightarrow> nat list" where
  "cat_feature_indices m =
     map fst (filter (\<lambda>(i, col). col \<in> set (categorical_columns m))
                (enumerate 0 (feature_columns m)))"

text \<open>
  The table that goes to the split (lines 103 to 127), for a prepared table with enough
  rows: the rows with a target, the target capped, the rows outside the bounds dropped
  from both \<^verbatim>\<open>X\<close> and \<^verbatim>\<open>y_capped\<close>.
\<close>

definition training_table :: "effort_model \<Rightarrow> frame \<Rightarrow> feature_row list \<times> real list" where
  "training_table m df =
     (let train_data = dropna_rows (effortExpense df);
          X = map (feature_row_at m df) train_data;
          y = dropna_values (effortExpense df);
          y_capped = cap_target (effort_limit m) y;
          keep = outlier_mask y_capped
      in (boolean_index X keep, boolean_index y_capped keep))"

text \<open>
  Scaling (lines 137 to 150): the scaler is fitted on the training split only and applied
  to both splits; without a numeric feature it is not touched.
\<close>

definition scale_split ::
  "library \<Rightarrow> effort_model \<Rightarrow> feature_row list \<Rightarrow> feature_row list \<Rightarrow>
   effort_model \<times> feature_row list \<times> feature_row list" where
  "scale_split lib m X_train X_test =
     (let numerical_features =
            filter (\<lambda>c. c \<notin> set (categorical_columns m)) (feature_columns m);
          tr = scaler_fit lib (map fst X_train)
      in if numerical_features \<noteq> []
         then (m\<lparr>scaler := Some tr\<rparr>,
               map (\<lambda>(ns, cs). (tr ns, cs)) X_train, map (\<lambda>(ns, cs). (tr ns, cs)) X_test)
         else (m, X_train, X_test))"

text \<open>The parameter search (lines 152 to 157), skipped in fast mode.\<close>

definition tune_params ::
  "library \<Rightarrow> effort_model \<Rightarrow> bool \<Rightarrow> bool \<Rightarrow> feature_row list \<Rightarrow> real list \<Rightarrow> string + params" where
  "tune_params lib m hyperparameter_tuning fast_mode X_train_scaled y_train =
     (if hyperparameter_tuning \<and> \<not> fast_mode then
        (case grid_search lib (catboost_params m) X_train_scaled y_train (cat_feature_indices m) of
           Inl msg \<Rightarrow> Inl msg
         | Inr best_params \<Rightarrow> Inr (dict_update (catboost_params m) best_params))
      else Inr (catboost_params m))"

text \<open>The metrics dictionary (lines 174 to 189).\<close>

definition compute_metrics ::
  "library \<Rightarrow> effort_model \<Rightarrow> (feature_row \<Rightarrow> real) \<Rightarrow>
   feature_row list \<Rightarrow> real list \<Rightarrow> feature_row list \<Rightarrow> real list \<Rightarrow> nat \<Rightarrow> nat \<Rightarrow> metrics" where
  "compute_metrics lib m reg X_train_scaled y_train X_test_scaled y_test n_train n_test =
     (let y_pred_train = map reg X_train_scaled;
          y_pred_test = map reg X_test_scaled
      in \<lparr>train_rmse = rmse lib y_train y_pred_train,
          test_rmse = rmse lib y_test y_pred_test,
          train_mae = mean_absolute_error lib y_train y_pred_train,
          test_mae = mean_absolute_error lib y_test y_pred_test,
          train_r2 = r2_score lib y_train y_pred_train,
          test_r2 = r2_score lib y_test y_pred_test,
          training_samples = n_train,
          test_samples = n_test,
          feature_importance = zip (feature_columns m) (get_feature_importance lib reg)\<rparr>)"

text \<open>
  The fit (lines 159 to 197): the regressor object is assigned before it is fitted, so a
  fit that raises leaves an unfitted regressor behind.
\<close>

definition fit_regressor ::
  "library \<Rightarrow> effort_model \<Rightarrow> params \<Rightarrow>
   feature_row list \<Rightarrow> real list \<Rightarrow> feature_row list \<Rightarrow> real list \<Rightarrow> nat \<Rightarrow> nat \<Rightarrow>
   (error + metrics) \<times> effort_model" where
  "fit_regressor lib m ps X_train_scaled y_train X_test_scaled y_test n_train n_test =
     (let m3 = m\<lparr>catboost_params := ps, model := Some (Unfitted ps)\<rparr> in
      case catboost_fit lib ps X_train_scaled y_train (cat_feature_indices m3)
             X_test_scaled y_test of
        Inl msg \<Rightarrow> (Inl (LibraryError msg), m3)
      | Inr reg \<Rightarrow>
          (let mt = compute_metrics lib m3 reg X_train_scaled y_train X_test_scaled y_test
                      n_train n_test
           in (Inr mt, m3\<lparr>model := Some (Fitted reg), model_metrics := Some mt,
                          is_trained := True\<rparr>)))"

text \<open>Lines 137 to 197, on the four parts of the split.\<close>

definition fit_on_split ::
  "library \<Rightarrow> effort_model \<Rightarrow>
   feature_row list \<times> feature_row list \<times> real list \<times> real list \<Rightarrow> bool \<Rightarrow> bool \<Rightarrow>
   (error + metrics) \<times> effort_model" where
  "fit_on_split lib m parts hyperparameter_tuning fast_mode =
     (case parts of (X_train, X_test, y_train, y_test) \<Rightarrow>
      case scale_split lib m X_train X_test of (m2, X_train_scaled, X_test_scaled) \<Rightarrow>
      case tune_params lib m2 hyperparameter_tuning fast_mode X_train_scaled y_train of
        Inl msg \<Rightarrow> (Inl (LibraryError msg), m2)
      | Inr ps \<Rightarrow>
          fit_regressor lib m2 ps X_train_scaled y_train X_test_scaled y_test
            (length X_train) (length X_test))"

definition train_model ::
  "library \<Rightarrow> effort_model \<Rightarrow> frame \<Rightarrow> real \<Rightarrow> bool \<Rightarrow> bool \<Rightarrow> (error + metrics) \<times> effort_model" where
  "train_model lib m df test_size hyperparameter_tuning fast_mode =
     (let (m1, dfp) = prepare_features m df;
          train_data = dropna_rows (effortExpense dfp)
      in if length train_data < 10 then (Inl insufficient_data_error, m1)
         else
           (let (X, y_capped) = training_table m1 dfp in
            (case train_test_split lib test_size X y_capped of
               Inl msg \<Rightarrow> (Inl (LibraryError msg), m1)
             | Inr parts \<Rightarrow> fit_on_split lib m1 parts hyperparameter_tuning fast_mode)))"

text \<open>
  The table for the split in the words of the specification: the targets of the rows that
  have one are clipped to the ceiling, the bounds \<open>Q1 - 1.5 IQR\<close> and \<open>Q3 + 1.5 IQR\<close> are
  taken on the clipped targets, and a row stays when its clipped target lies in the closed
  interval between them.
\<close>

definition spec_training_rows :: "real \<Rightarrow> (feature_row \<times> real) list \<Rightarrow> (feature_row \<times> real) list" where
  "spec_training_rows ceil_v rows =
     (let capped = map (\<lambda>(x, v). (x, min v ceil_v)) rows in
      case quantile (map snd capped) 0.25 of None \<Rightarrow> []
      | Some Q1 \<Rightarrow>
          (case quantile (map snd capped) 0.75 of None \<Rightarrow> []
           | Some Q3 \<Rightarrow>
               filter (\<lambda>(x, v). Q1 - 1.5 * (Q3 - Q1) \<le> v \<and> v \<le> Q3 + 1.5 * (Q3 - Q1)) capped))"


section \<open>\<^verbatim>\<open>ModelStorage\<close>: the registry\<close>

text \<open>
  A row of the table \<^verbatim>\<open>models\<close>. Timestamps are readings of the clock in seconds, which is
  what \<^verbatim>\<open>CURRENT_TIMESTAMP\<close> stores; the metrics column holds the serialised dictionary.
\<close>

record model_entry =
  entry_id :: nat
  model_name :: string
  model_type :: string
  file_path :: string
  created_at :: nat
  updated_at :: nat
  entry_metrics :: "metrics option"
  feature_count :: nat
  entry_training_samples :: nat
  entry_effort_limit :: real
  is_active :: bool

text \<open>
  The database: the rows in rowid order, and the counter that \<^verbatim>\<open>AUTOINCREMENT\<close> keeps (the
  largest id ever given out). The table \<^verbatim>\<open>model_versions\<close> is created and never written.
\<close>

record database =
  models :: "model_entry list"
  models_seq :: nat

definition init_database :: database where
  "init_database = \<lparr>models = [], models_seq = 0\<rparr>"

text \<open>
  \<^verbatim>\<open>save_model\<close>: every row is deactivated, then \<^verbatim>\<open>INSERT OR REPLACE\<close> removes the row that
  holds the same (unique) name, if any, and appends the new row, active, under a fresh id.
  \<open>now\<close> is the clock at the call. The result is \<^verbatim>\<open>cursor.lastrowid\<close> and the new database.
\<close>

definition storage_save_model ::
  "database \<Rightarrow> nat \<Rightarrow> string \<Rightarrow> string \<Rightarrow> string \<Rightarrow> metrics option \<Rightarrow> nat \<Rightarrow> nat \<Rightarrow> real \<Rightarrow>
   nat \<times> database" where
  "storage_save_model d now name mtype path mt fcount samples cap =
     (let deactivated = map (\<lambda>r. r\<lparr>is_active := False\<rparr>) (models d);
          kept = filter (\<lambda>r. model_name r \<noteq> name) deactivated;
          model_id = Suc (fold max (map entry_id (models d)) (models_seq d));
          new_entry = \<lparr>entry_id = model_id, model_name = name, model_type = mtype,
                       file_path = path, created_at = now, updated_at = now,
                       entry_metrics = mt, feature_count = fcount,
                       entry_training_samples = samples, entry_effort_limit = cap,
                       is_active = True\<rparr>
      in (model_id, \<lparr>models = kept @ [new_entry], models_seq = model_id\<rparr>))"

text \<open>
  \<^verbatim>\<open>ORDER BY updated_at DESC LIMIT 1\<close>: the row with the greatest timestamp. Among rows
  with equal timestamps SQLite leaves the order open; the first in table order is taken.
\<close>

fun newest :: "model_entry \<Rightarrow> model_entry list \<Rightarrow> model_entry" where
  "newest best [] = best"
| "newest best (r # rs) = newest (if updated_at r > updated_at best then r else best) rs"

definition get_active_model :: "database \<Rightarrow> model_entry option" where
  "get_active_model d =
     (case filter is_active (models d) of
        [] \<Rightarrow> None
      | r # rs \<Rightarrow> Some (newest r rs))"

text \<open>\<^verbatim>\<open>SELECT COUNT(*) FROM models WHERE is_active = 1\<close> of \<^verbatim>\<open>get_model_stats\<close>.\<close>

definition active_models :: "database \<Rightarrow> nat" where
  "active_models d = length (filter is_active (models d))"

section \<open>Model files\<close>

text \<open>
  The dictionary that \<^verbatim>\<open>joblib.dump\<close> writes, and the file system as a map from paths to
  the artifacts stored there.
\<close>

record artifact =
  art_model :: "regressor option"
  art_scaler :: "(real option list \<Rightarrow> real option list) option"
  art_feature_columns :: "string list"
  art_categorical_columns :: "string list"
  art_effort_limit :: real
  art_model_metrics :: "metrics option"
  art_is_trained :: bool

type_synonym file_system = "string \<Rightarrow> artifact option"

text \<open>
  \<^verbatim>\<open>delete_model\<close>: the row with the id is removed, and its file when it exists; no other
  row is written. The result is False when no row has the id.
\<close>

definition delete_model :: "database \<Rightarrow> file_system \<Rightarrow> nat \<Rightarrow> bool \<times> database \<times> file_system" where
  "delete_model d fs model_id =
     (case find (\<lambda>r. entry_id r = model_id) (models d) of
        None \<Rightarrow> (False, d, fs)
      | Some r \<Rightarrow>
          (True, d\<lparr>models := filter (\<lambda>r. entry_id r \<noteq> model_id) (models d)\<rparr>,
           fs(file_path r := None)))"

text \<open>\<^verbatim>\<open>CatBoostEffortModel.save_model\<close> and \<^verbatim>\<open>load_model\<close>.\<close>

definition save_model :: "effort_model \<Rightarrow> file_system \<Rightarrow> string \<Rightarrow> error + file_system" where
  "save_model m fs filepath =
     (if model m = None then Inl (ValueError ''No trained model to save'')
      else Inr (fs(filepath \<mapsto>
             \<lparr>art_model = model m, art_scaler = scaler m,
              art_feature_columns = feature_columns m,
              art_categorical_columns = categorical_columns m,
              art_effort_limit = effort_limit m,
              art_model_metrics = model_metrics m,
              art_is_trained = is_trained m\<rparr>)))"

definition load_model :: "effort_model \<Rightarrow> file_system \<Rightarrow> string \<Rightarrow> (error + unit) \<times> effort_model" where
  "load_model m fs filepath =
     (case fs filepath of
        None \<Rightarrow> (Inl (FileNotFoundError (''Model file not found: '' @ filepath)), m)
      | Some model_data \<Rightarrow>
          (Inr (), m\<lparr>model := art_model model_data, scaler := art_scaler model_data,
                     feature_columns := art_feature_columns model_data,
                     categorical_columns := art_categorical_columns model_data,
                     effort_limit := art_effort_limit model_data,
                     model_metrics := art_model_metrics model_data,
                     is_trained := art_is_trained model_data\<rparr>))"

text \<open>
  A sequence of calls of \<^verbatim>\<open>ModelStorage.save_model\<close>, each with the clock at the call and
  its seven arguments, run from left to right.
\<close>

type_synonym save_call = "nat \<times> string \<times> string \<times> string \<times> metrics option \<times> nat \<times> nat \<times> real"

definition run_save :: "save_call \<Rightarrow> database \<Rightarrow> database" where
  "run_save c d =
     (case c of (now, name, mtype, path, mt, fcount, samples, cap) \<Rightarrow>
        snd (storage_save_model d now name mtype path mt fcount samples cap))"

definition run_saves :: "database \<Rightarrow> save_call list \<Rightarrow> database" where
  "run_saves d calls = fold run_save calls d"

section \<open>\<^verbatim>\<open>DataProcessor\<close>: the orchestrator\<close>

record data_processor =
  dp_effort_limit :: real
  missing_threshold :: real
  ml_model :: effort_model
  is_model_trained :: bool

text \<open>What lives outside the process: the registry database and the model files.\<close>

record world =
  registry :: database
  files :: file_system

definition init_data_processor :: "real \<Rightarrow> real \<Rightarrow> data_processor" where
  "init_data_processor cap threshold =
     \<lparr>dp_effort_limit = cap, missing_threshold = threshold,
      ml_model = init_effort_model cap, is_model_trained = False\<rparr>"

text \<open>
  \<^verbatim>\<open>DataProcessor.train_model\<close>: the flag is set only after the model's \<^verbatim>\<open>train_model\<close> has
  returned; an exception is logged and raised again. The test fraction is the default 0.2.
\<close>

definition processor_train_model ::
  "library \<Rightarrow> data_processor \<Rightarrow> frame \<Rightarrow> bool \<Rightarrow> bool \<Rightarrow> (error + metrics) \<times> data_processor" where
  "processor_train_model lib p df hyperparameter_tuning fast_mode =
     (case train_model lib (ml_model p) df 0.2 hyperparameter_tuning fast_mode of
        (Inl e, m') \<Rightarrow> (Inl e, p\<lparr>ml_model := m'\<rparr>)
      | (Inr mt, m') \<Rightarrow> (Inr mt, p\<lparr>ml_model := m', is_model_trained := True\<rparr>))"

record corrected_frame = predicted_frame +
  effortExpense_original :: "real option list"

definition not_trained_error :: error where
  "not_trained_error =
     ValueError ''Model must be trained before making predictions. Call train_model() first.''"

definition predict_effort_expenses ::
  "data_processor \<Rightarrow> frame \<Rightarrow> (error + corrected_frame) \<times> data_processor" where
  "predict_effort_expenses p df =
     (if \<not> is_model_trained p then (Inl not_trained_error, p)
      else
        (case predict (ml_model p) df of
           (Inl e, m') \<Rightarrow> (Inl e, p\<lparr>ml_model := m'\<rparr>)
         | (Inr df_predicted, m') \<Rightarrow>
             (Inr \<lparr>effortExpense = effortExpense df_predicted,
                   numeric_cols = numeric_cols df_predicted,
                   text_cols = text_cols df_predicted,
                   is_missing_effort = is_missing_effort df_predicted,
                   is_over_limit = is_over_limit df_predicted,
                   needs_prediction = needs_prediction df_predicted,
                   effortExpense_predicted = effortExpense_predicted df_predicted,
                   effortExpense_final = effortExpense_final df_predicted,
                   effortExpense_original = effortExpense df\<rparr>,
              p\<lparr>ml_model := m'\<rparr>)))"

text \<open>
  The readings of the clock that \<^verbatim>\<open>DataProcessor.save_model\<close> takes: the two formatted
  stamps of \<^verbatim>\<open>datetime.now()\<close> for the file name and the entry name, and the database's
  \<^verbatim>\<open>CURRENT_TIMESTAMP\<close>.
\<close>

record clock =
  file_stamp :: string
  name_stamp :: string
  db_time :: nat

definition processor_save_model ::
  "data_processor \<Rightarrow> world \<Rightarrow> clock \<Rightarrow> string option \<Rightarrow> (error + string) \<times> world" where
  "processor_save_model p w clk filepath_opt =
     (if \<not> is_model_trained p then (Inl (ValueError ''No trained model to save''), w)
      else
        (let filepath =
               (case filepath_opt of
                  None \<Rightarrow> ''effort_expense_model_catboost_'' @ file_stamp clk @ ''.pkl''
                | Some f \<Rightarrow> f)
         in (case save_model (ml_model p) (files w) filepath of
               Inl e \<Rightarrow> (Inl e, w)
             | Inr fs' \<Rightarrow>
                 (let (model_id, d') =
                        storage_save_model (registry w) (db_time clk)
                          (''CatBoost_Model_'' @ name_stamp clk) ''CatBoost'' filepath
                          (model_metrics (ml_model p))
                          (length (feature_columns (ml_model p)))
                          (case model_metrics (ml_model p) of
                             None \<Rightarrow> 0 | Some mt \<Rightarrow> training_samples mt)
                          (dp_effort_limit p)
                  in (Inr filepath, \<lparr>registry = d', files = fs'\<rparr>)))))"

definition no_active_model_error :: error where
  "no_active_model_error = ValueError ''No active model found in database''"

text \<open>
  \<^verbatim>\<open>DataProcessor.load_model\<close>: without a path, the path of the registry's active entry;
  the flag is set after the model's \<^verbatim>\<open>load_model\<close> has returned.
\<close>

definition processor_load_model ::
  "data_processor \<Rightarrow> world \<Rightarrow> string option \<Rightarrow> (error + unit) \<times> data_processor" where
  "processor_load_model p w filepath_opt =
     (case (case filepath_opt of
              None \<Rightarrow>
                (case get_active_model (registry w) of
                   Some active_model \<Rightarrow> Inr (file_path active_model)
                 | None \<Rightarrow> Inl no_active_model_error)
            | Some f \<Rightarrow> Inr f) of
        Inl e \<Rightarrow> (Inl e, p)
      | Inr filepath \<Rightarrow>
          (case load_model (ml_model p) (files w) filepath of
             (Inl e, m') \<Rightarrow> (Inl e, p\<lparr>ml_model := m'\<rparr>)
           | (Inr u, m') \<Rightarrow> (Inr (), p\<lparr>ml_model := m', is_model_trained := True\<rparr>)))"

section \<open>Statements of the specification\<close>

text \<open>
  The specification's reading of numeric imputation at prediction time: wherever the table
  being predicted misses a value in a numeric covariate, the output holds the median of
  that column of the training table.
\<close>

definition imputes_training_median :: "frame \<Rightarrow> frame \<Rightarrow> predicted_frame \<Rightarrow> bool" where
  "imputes_training_median train_df df out =
     list_all (\<lambda>c.
        case map_of (numeric_cols df) c of None \<Rightarrow> True
        | Some vs \<Rightarrow>
            (case map_of (numeric_cols train_df) c of None \<Rightarrow> True
             | Some ts \<Rightarrow>
                 list_all (\<lambda>i. vs ! i = None \<longrightarrow> cell_at (numeric_cols out) c i = median ts)
                   [0..<length vs]))
       numerical_columns"

section \<open>Concrete inputs\<close>

definition example_model :: effort_model where
  "example_model =
     \<lparr>effort_limit = 30,
      model = Some (Fitted (\<lambda>(ns, cs). case ns of Some x # _ \<Rightarrow> x | _ \<Rightarrow> 0)),
      scaler = Some (\<lambda>ns. ns),
      feature_columns = [''effortTimeCosts''],
      categorical_columns = categorical_columns_const,
      is_trained = True, model_metrics = None,
      catboost_params = init_catboost_params\<rparr>"

definition example_frame :: frame where
  "example_frame =
     \<lparr>effortExpense = [Some 10, None, Some 45, None],
      numeric_cols = [(''effortTimeCosts'', [Some 12, Some 50, Some (-3), None])],
      text_cols = []\<rparr>"

definition example_out :: predicted_frame where
  "example_out =
     \<lparr>effortExpense = [Some 10, None, Some 45, None],
      numeric_cols = [(''effortTimeCosts'', [Some 12, Some 50, Some (-3), Some 12])],
      text_cols = [],
      is_missing_effort = [False, True, False, True],
      is_over_limit = [False, False, True, False],
      needs_prediction = [False, True, True, True],
      effortExpense_predicted = [Some 10, Some 30, Some 0, Some 12],
      effortExpense_final = [Some 10, Some 30, Some 30, Some 12]\<rparr>"


definition example_pass1_state :: "real option list \<times> real option list" where
  "example_pass1_state =
     ([Some 10, Some 30, Some 0, Some 12], [Some 10, Some 30, Some 30, Some 12])"


definition example_calls :: "save_call list" where
  "example_calls =
     [(100, ''CatBoost_Model_A'', ''CatBoost'', ''a.pkl'', None, 3, 8, 30),
      (160, ''CatBoost_Model_B'', ''CatBoost'', ''b.pkl'', None, 3, 8, 30)]"

definition example_regressor :: "feature_row \<Rightarrow> real" where
  "example_regressor = (\<lambda>(ns, cs). case ns of Some x # _ \<Rightarrow> x | _ \<Rightarrow> 0)"

definition example_library :: library where
  "example_library =
     \<lparr>train_test_split = (\<lambda>ts X y. Inr (drop 2 X, take 2 X, drop 2 y, take 2 y)),
      scaler_fit = (\<lambda>rows ns. ns),
      grid_search = (\<lambda>ps X y cats. Inr []),
      catboost_fit = (\<lambda>ps X y cats Xt yt. Inr example_regressor),
      rmse = (\<lambda>a b. 0),
      mean_absolute_error = (\<lambda>a b. 0),
      r2_score = (\<lambda>a b. 1),
      get_feature_importance = (\<lambda>reg. [100])\<rparr>"

text \<open>Ten rows with a target, one of them above the limit; and the same table with one target missing.\<close>

definition example_training_frame :: frame where
  "example_training_frame =
     \<lparr>effortExpense = [Some 6, Some 7, Some 8, Some 8, Some 8, Some 9, Some 9, Some 10,
                       Some 45, Some 1],
      numeric_cols = [(''effortTimeCosts'', [Some 10, Some 10, Some 10, Some 10, Some 10,
                       Some 10, Some 10, Some 10, Some 10, Some 10])],
      text_cols = []\<rparr>"


definition example_metrics :: metrics where
  "example_metrics =
     \<lparr>train_rmse = 0, test_rmse = 0, train_mae = 0, test_mae = 0, train_r2 = 1, test_r2 = 1,
      training_samples = 6, test_samples = 2,
      feature_importance = [(''effortTimeCosts'', 100)]\<rparr>"

definition example_artifact :: artifact where
  "example_artifact =
     \<lparr>art_model = Some (Fitted example_regressor), art_scaler = Some (\<lambda>ns. ns),
      art_feature_columns = [''effortTimeCosts''],
      art_categorical_columns = categorical_columns_const,
      art_effort_limit = 30, art_model_metrics = Some example_metrics,
      art_is_trained = True\<rparr>"

definition example_world :: world where
  "example_world =
     \<lparr>registry = run_saves init_database example_calls,
      files = [''b.pkl'' \<mapsto> example_artifact]\<rparr>"

definition example_entry :: model_entry where
  "example_entry =
     \<lparr>entry_id = 2, model_name = ''CatBoost_Model_B'', model_type = ''CatBoost'',
      file_path = ''b.pkl'', created_at = 160, updated_at = 160, entry_metrics = None,
      feature_count = 3, entry_training_samples = 8, entry_effort_limit = 30,
      is_active = True\<rparr>"

definition example_empty_world :: world where
  "example_empty_world = \<lparr>registry = init_database, files = Map.empty\<rparr>"

section \<open>Properties of \<^verbatim>\<open>predict\<close>\<close>

lemma apply_prediction_length:
  "apply_prediction cap miss over ps p st = st' \<Longrightarrow>
   length (fst st') = length (fst st) \<and> length (snd st') = length (snd st)"
  by (auto simp: apply_prediction_def Let_def split: prod.splits if_splits)

lemma fold_apply_prediction_length:
  "length (fst (fold (apply_prediction cap miss over ps) xs st)) = length (fst st) \<and>
   length (snd (fold (apply_prediction cap miss over ps) xs st)) = length (snd st)"
proof (induction xs arbitrary: st)
  case Nil
  show ?case by simp
next
  case (Cons x xs)
  show ?case
    using Cons.IH [of "apply_prediction cap miss over ps x st"]
      apply_prediction_length [of cap miss over ps x st]
    by simp
qed

lemma fold_apply_prediction_other:
  "j \<notin> snd ` set xs \<Longrightarrow>
   fst (fold (apply_prediction cap miss over ps) xs st) ! j = fst st ! j \<and>
   snd (fold (apply_prediction cap miss over ps) xs st) ! j = snd st ! j"
proof (induction xs arbitrary: st)
  case Nil
  show ?case by simp
next
  case (Cons x xs)
  have step: "fst (apply_prediction cap miss over ps x st) ! j = fst st ! j \<and>
              snd (apply_prediction cap miss over ps x st) ! j = snd st ! j"
    using Cons.prems
    by (cases x; cases st) (auto simp: apply_prediction_def Let_def)
  show ?case
    using Cons.IH [of "apply_prediction cap miss over ps x st"] Cons.prems step
    by simp
qed


lemma fold_apply_prediction_char:
  assumes "distinct idxs"
    and "\<forall>idx\<in>set idxs. idx < n \<and> (miss ! idx \<or> over ! idx)"
    and "length pred = n" and "length fin = n"
  shows "\<forall>j<length idxs.
           fst (fold (apply_prediction cap miss over ps) (enumerate k idxs) (pred, fin)) ! (idxs ! j)
             = Some (min (ps ! (k + j)) cap) \<and>
           snd (fold (apply_prediction cap miss over ps) (enumerate k idxs) (pred, fin)) ! (idxs ! j)
             = (if miss ! (idxs ! j) then Some (min (ps ! (k + j)) cap) else Some cap)"
  using assms
proof (induction idxs rule: rev_induct)
  case Nil
  show ?case by simp
next
  case (snoc x xs)
  let ?f = "apply_prediction cap miss over ps"
  let ?st = "fold ?f (enumerate k xs) (pred, fin)"
  have len: "length (fst ?st) = n" "length (snd ?st) = n"
    using fold_apply_prediction_length [of cap miss over ps "enumerate k xs" "(pred, fin)"] snoc.prems
    by simp_all
  have x: "x < n" "miss ! x \<or> over ! x" "x \<notin> set xs" "distinct xs"
    using snoc.prems by auto
  have IH: "\<forall>j<length xs.
      fst ?st ! (xs ! j) = Some (min (ps ! (k + j)) cap) \<and>
      snd ?st ! (xs ! j) = (if miss ! (xs ! j) then Some (min (ps ! (k + j)) cap) else Some cap)"
    using snoc.IH snoc.prems by auto
  have unfold: "fold ?f (enumerate k (xs @ [x])) (pred, fin) = ?f (k + length xs, x) ?st"
    by (simp add: enumerate_append_eq)
  show ?case
  proof (intro allI impI)
    fix j assume j: "j < length (xs @ [x])"
    show "fst (fold ?f (enumerate k (xs @ [x])) (pred, fin)) ! ((xs @ [x]) ! j)
             = Some (min (ps ! (k + j)) cap) \<and>
          snd (fold ?f (enumerate k (xs @ [x])) (pred, fin)) ! ((xs @ [x]) ! j)
             = (if miss ! ((xs @ [x]) ! j) then Some (min (ps ! (k + j)) cap) else Some cap)"
    proof (cases "j < length xs")
      case True
      then have ne: "xs ! j \<noteq> x" using x(3) by (metis nth_mem)
      show ?thesis
        using True ne IH len x(1,2)
        by (cases ?st) (auto simp: unfold apply_prediction_def Let_def nth_append)
    next
      case False
      then have "j = length xs" using j by simp
      then show ?thesis
        using len x(1,2)
        by (cases ?st) (auto simp: unfold apply_prediction_def Let_def nth_append)
    qed
  qed
qed


lemma np_clip_le: "np_clip x lo hi \<le> hi"
  by (simp add: np_clip_def)

lemma min_np_clip: "min (np_clip x lo hi) hi = np_clip x lo hi"
  by (simp add: np_clip_def)

lemma length_needs_flags: "length (needs_flags cap tgt) = length tgt"
  by (simp add: needs_flags_def missing_flags_def over_flags_def)

lemma nth_needs_flags:
  "i < length tgt \<Longrightarrow> needs_flags cap tgt ! i = (isna (tgt ! i) \<or> gt_limit cap (tgt ! i))"
  by (simp add: needs_flags_def missing_flags_def over_flags_def)

lemma set_prediction_rows: "set (prediction_rows needs) = {i. i < length needs \<and> needs ! i}"
  by (auto simp: prediction_rows_def)

lemma distinct_prediction_rows: "distinct (prediction_rows needs)"
  by (simp add: prediction_rows_def)

lemma prediction_rows_Nil:
  assumes "\<not> list_ex (\<lambda>b. b) needs"
  shows "prediction_rows needs = []"
proof -
  have "\<forall>b\<in>set needs. \<not> b" using assms unfolding list_ex_iff by blast
  then have "\<forall>i<length needs. \<not> needs ! i" using nth_mem by blast
  then have "set (prediction_rows needs) = {}" unfolding set_prediction_rows by blast
  then show ?thesis by (simp only: set_empty)
qed

lemma length_raw_predictions: "raw_predictions m df idxs = Inr raw \<Longrightarrow> length raw = length idxs"
  by (auto simp: raw_predictions_def Let_def split: if_splits option.splits sum.splits regressor.splits)

lemma prepare_features_keeps:
  "prepare_features m df = (m1, dfp) \<Longrightarrow>
   effort_limit m1 = effort_limit m \<and> effortExpense dfp = effortExpense df \<and>
   model m1 = model m \<and> scaler m1 = scaler m"
  by (auto simp: prepare_features_def Let_def)

lemma snd_set_enumerate: "snd ` set (enumerate k xs) = set xs"
proof -
  have "snd ` set (enumerate k xs) = set (map snd (enumerate k xs))" by (rule set_map [symmetric])
  then show ?thesis by simp
qed

lemma pass1_char:
  assumes "pass1 m df = Inr (pred, fin)"
  defines "cap \<equiv> effort_limit m" and "tgt \<equiv> effortExpense df"
  defines "idxs \<equiv> prediction_rows (needs_flags cap tgt)"
  shows "length pred = length tgt \<and> length fin = length tgt \<and>
    (\<forall>i<length tgt. \<not> needs_flags cap tgt ! i \<longrightarrow> pred ! i = tgt ! i \<and> fin ! i = tgt ! i) \<and>
    (\<forall>k<length idxs. \<exists>raw. raw_predictions m df idxs = Inr raw \<and>
           pred ! (idxs ! k) = Some (np_clip (raw ! k) 0 cap) \<and>
           fin ! (idxs ! k) = (if isna (tgt ! (idxs ! k)) then Some (np_clip (raw ! k) 0 cap) else Some cap))"
proof (cases "list_ex (\<lambda>b. b) (needs_flags cap tgt)")
  case False
  then have "idxs = []" unfolding idxs_def by (rule prediction_rows_Nil)
  moreover have "pred = tgt" "fin = tgt"
    using assms(1) False by (auto simp: pass1_def Let_def cap_def tgt_def)
  ultimately show ?thesis by simp
next
  case True
  let ?needs = "needs_flags cap tgt"
  obtain raw where raw: "raw_predictions m df idxs = Inr raw"
    using assms(1) True by (auto simp: pass1_def Let_def cap_def tgt_def idxs_def split: sum.splits)
  let ?ps = "map (\<lambda>x. np_clip x 0 cap) raw"
  let ?f = "apply_prediction cap (missing_flags tgt) (over_flags cap tgt) ?ps"
  have st: "fold ?f (enumerate 0 idxs) (tgt, tgt) = (pred, fin)"
    using assms(1) True raw by (simp add: pass1_def Let_def cap_def tgt_def idxs_def)
  have lraw: "length raw = length idxs" using raw by (rule length_raw_predictions)
  have mem: "\<forall>idx\<in>set idxs. idx < length tgt \<and> (missing_flags tgt ! idx \<or> over_flags cap tgt ! idx)"
    unfolding idxs_def
    by (auto simp: set_prediction_rows length_needs_flags nth_needs_flags
        missing_flags_def over_flags_def)
  have len: "length pred = length tgt" "length fin = length tgt"
    using fold_apply_prediction_length [of cap "missing_flags tgt" "over_flags cap tgt" ?ps
        "enumerate 0 idxs" "(tgt, tgt)"] st by simp_all
  have other: "\<forall>i<length tgt. \<not> ?needs ! i \<longrightarrow> pred ! i = tgt ! i \<and> fin ! i = tgt ! i"
  proof (intro allI impI)
    fix i assume "i < length tgt" "\<not> ?needs ! i"
    then have "i \<notin> set idxs"
      by (simp add: idxs_def set_prediction_rows)
    then have "i \<notin> snd ` set (enumerate 0 idxs)"
      by (simp only: snd_set_enumerate not_False_eq_True)
    from fold_apply_prediction_other [OF this, of cap "missing_flags tgt" "over_flags cap tgt" ?ps "(tgt, tgt)"]
    show "pred ! i = tgt ! i \<and> fin ! i = tgt ! i" unfolding st by simp
  qed
  have dist: "distinct idxs" by (simp add: idxs_def distinct_prediction_rows)
  have char: "\<forall>j<length idxs.
      fst (fold ?f (enumerate 0 idxs) (tgt, tgt)) ! (idxs ! j) = Some (min (?ps ! (0 + j)) cap) \<and>
      snd (fold ?f (enumerate 0 idxs) (tgt, tgt)) ! (idxs ! j)
        = (if missing_flags tgt ! (idxs ! j) then Some (min (?ps ! (0 + j)) cap) else Some cap)"
    by (rule fold_apply_prediction_char [OF dist mem refl refl])
  have chr: "\<forall>k<length idxs.
         pred ! (idxs ! k) = Some (np_clip (raw ! k) 0 cap) \<and>
         fin ! (idxs ! k) = (if isna (tgt ! (idxs ! k)) then Some (np_clip (raw ! k) 0 cap) else Some cap)"
  proof (intro allI impI)
    fix k assume k: "k < length idxs"
    then have "idxs ! k \<in> set idxs" by simp
    then have lt: "idxs ! k < length tgt" using mem by blast
    have "pred ! (idxs ! k) = Some (min (?ps ! (0 + k)) cap)"
         "fin ! (idxs ! k) = (if missing_flags tgt ! (idxs ! k) then Some (min (?ps ! (0 + k)) cap) else Some cap)"
      using char k unfolding st by simp_all
    then show "pred ! (idxs ! k) = Some (np_clip (raw ! k) 0 cap) \<and>
         fin ! (idxs ! k) = (if isna (tgt ! (idxs ! k)) then Some (np_clip (raw ! k) 0 cap) else Some cap)"
      using k lraw lt by (simp add: min_np_clip missing_flags_def)
  qed
  show ?thesis
    using len other chr raw by simp
qed


lemma prediction_rows_nth_ex:
  assumes "i < length needs" "needs ! i"
  shows "\<exists>k<length (prediction_rows needs). prediction_rows needs ! k = i"
proof -
  have "i \<in> set (prediction_rows needs)" using assms by (simp add: set_prediction_rows)
  then show ?thesis by (simp only: in_set_conv_nth)
qed

lemma pass1_final_bounded:
  assumes p1: "pass1 m df = Inr (pred, fin)" and i: "i < length (effortExpense df)"
  shows "\<exists>v. fin ! i = Some v \<and> v \<le> effort_limit m"
proof (cases "needs_flags (effort_limit m) (effortExpense df) ! i")
  case False
  then have eq: "fin ! i = effortExpense df ! i"
    using pass1_char [OF p1] i by blast
  from False i have "\<not> isna (effortExpense df ! i)" "\<not> gt_limit (effort_limit m) (effortExpense df ! i)"
    by (simp_all add: nth_needs_flags)
  then show ?thesis unfolding eq
    by (cases "effortExpense df ! i") (simp_all add: isna_def gt_limit_def)
next
  case True
  then obtain k where k: "k < length (prediction_rows (needs_flags (effort_limit m) (effortExpense df)))"
      "prediction_rows (needs_flags (effort_limit m) (effortExpense df)) ! k = i"
    using prediction_rows_nth_ex [of i "needs_flags (effort_limit m) (effortExpense df)"] i
    by (auto simp: length_needs_flags)
  from pass1_char [OF p1] k obtain raw where
    "fin ! i = (if isna (effortExpense df ! i) then Some (np_clip (raw ! k) 0 (effort_limit m))
                else Some (effort_limit m))"
    by blast
  then show ?thesis by (simp add: np_clip_le)
qed

lemma pass1_predicted_bounded:
  assumes p1: "pass1 m df = Inr (pred, fin)"
    and idx: "idx \<in> set (prediction_rows (needs_flags (effort_limit m) (effortExpense df)))"
  shows "\<exists>v. pred ! idx = Some v \<and> v \<le> effort_limit m"
proof -
  from idx obtain k where k: "k < length (prediction_rows (needs_flags (effort_limit m) (effortExpense df)))"
      "prediction_rows (needs_flags (effort_limit m) (effortExpense df)) ! k = idx"
    by (auto simp only: in_set_conv_nth)
  from pass1_char [OF p1] k obtain raw where
    "pred ! idx = Some (np_clip (raw ! k) 0 (effort_limit m))"
    by blast
  then show ?thesis by (simp add: np_clip_le)
qed

lemma pass1_no_high_predictions:
  assumes p1: "pass1 m df = Inr (pred, fin)"
  shows "high_predictions (effort_limit m)
           (prediction_rows (needs_flags (effort_limit m) (effortExpense df))) pred = []"
proof -
  have "\<forall>idx\<in>set (prediction_rows (needs_flags (effort_limit m) (effortExpense df))).
          \<not> gt_limit (effort_limit m) (pred ! idx)"
  proof
    fix idx assume "idx \<in> set (prediction_rows (needs_flags (effort_limit m) (effortExpense df)))"
    from pass1_predicted_bounded [OF p1 this] show "\<not> gt_limit (effort_limit m) (pred ! idx)"
      by (auto simp: gt_limit_def)
  qed
  then show ?thesis unfolding high_predictions_def by (simp only: filter_False)
qed

lemma final_sweep_id:
  assumes "\<forall>i<length fin. \<exists>v. fin ! i = Some v \<and> v \<le> cap"
  shows "final_sweep cap fin = fin"
proof -
  have "\<forall>c\<in>set fin. \<not> gt_limit cap c"
  proof
    fix c assume "c \<in> set fin"
    then obtain i where "i < length fin" "fin ! i = c" by (auto simp only: in_set_conv_nth)
    with assms show "\<not> gt_limit cap c" by (auto simp: gt_limit_def)
  qed
  then have "filter (gt_limit cap) fin = []" by (simp only: filter_False)
  then show ?thesis by (simp add: final_sweep_def)
qed

lemma predict_Inr:
  assumes "fst (predict m df) = Inr out"
  defines "m1 \<equiv> fst (prepare_features m df)" and "dfp \<equiv> snd (prepare_features m df)"
  shows "pass1 m1 dfp = Inr (effortExpense_predicted out, effortExpense_final out) \<and>
         needs_prediction out = needs_flags (effort_limit m) (effortExpense df) \<and>
         is_missing_effort out = missing_flags (effortExpense df) \<and>
         is_over_limit out = over_flags (effort_limit m) (effortExpense df) \<and>
         effortExpense out = effortExpense df \<and>
         numeric_cols out = numeric_cols dfp \<and> text_cols out = text_cols dfp"
proof -
  have pf: "prepare_features m df = (m1, dfp)" by (simp add: m1_def dfp_def)
  have keep: "effort_limit m1 = effort_limit m" "effortExpense dfp = effortExpense df"
    using prepare_features_keeps [OF pf] by simp_all
  obtain pred fin where p1: "pass1 m1 dfp = Inr (pred, fin)"
    using assms(1) pf by (cases "pass1 m1 dfp") (auto simp: predict_def Let_def)
  have nh: "high_predictions (effort_limit m1)
      (prediction_rows (needs_flags (effort_limit m1) (effortExpense dfp))) pred = []"
    by (rule pass1_no_high_predictions [OF p1])
  have len: "length fin = length (effortExpense dfp)" using pass1_char [OF p1] by blast
  have fs: "final_sweep (effort_limit m1) fin = fin"
  proof (rule final_sweep_id, intro allI impI)
    fix i assume "i < length fin"
    then have "i < length (effortExpense dfp)" using len by simp
    from pass1_final_bounded [OF p1 this] show "\<exists>v. fin ! i = Some v \<and> v \<le> effort_limit m1" .
  qed
  have vs: "validation_sweep (effort_limit m1)
      (prediction_rows (needs_flags (effort_limit m1) (effortExpense dfp))) (pred, fin) = (pred, fin)"
    using nh by (simp add: validation_sweep_def)
  have "fst (predict m df) = Inr \<lparr>effortExpense = effortExpense dfp, numeric_cols = numeric_cols dfp,
                        text_cols = text_cols dfp,
                        is_missing_effort = missing_flags (effortExpense dfp),
                        is_over_limit = over_flags (effort_limit m1) (effortExpense dfp),
                        needs_prediction = needs_flags (effort_limit m1) (effortExpense dfp),
                        effortExpense_predicted = pred,
                        effortExpense_final = fin\<rparr>"
    by (simp add: predict_def pf p1 Let_def vs fs)
  with assms(1) have "out = \<lparr>effortExpense = effortExpense dfp, numeric_cols = numeric_cols dfp,
                        text_cols = text_cols dfp,
                        is_missing_effort = missing_flags (effortExpense dfp),
                        is_over_limit = over_flags (effort_limit m1) (effortExpense dfp),
                        needs_prediction = needs_flags (effort_limit m1) (effortExpense dfp),
                        effortExpense_predicted = pred,
                        effortExpense_final = fin\<rparr>" by simp
  then show ?thesis using p1 keep by simp
qed

text \<open>With a fitted regressor and a fitted scaler, \<open>predict\<close> returns a table for every input.\<close>

lemma raw_predictions_returns:
  assumes "model m = Some (Fitted reg)" and "scaler m = Some tr"
  shows "\<exists>raw. raw_predictions m df idxs = Inr raw"
  using assms by (simp add: raw_predictions_def Let_def)

lemma pass1_returns:
  assumes "model m = Some (Fitted reg)" and "scaler m = Some tr"
  shows "\<exists>st. pass1 m df = Inr st"
proof -
  obtain raw where
    "raw_predictions m df (prediction_rows (needs_flags (effort_limit m) (effortExpense df))) = Inr raw"
    using raw_predictions_returns [OF assms] by blast
  then show ?thesis by (simp add: pass1_def Let_def)
qed

lemma predict_returns:
  assumes "model m = Some (Fitted reg)" and "scaler m = Some tr"
  shows "\<exists>out. fst (predict m df) = Inr out"
proof -
  obtain m1 dfp where pf: "prepare_features m df = (m1, dfp)" by (cases "prepare_features m df")
  have "model m1 = Some (Fitted reg)" "scaler m1 = Some tr"
    using prepare_features_keeps [OF pf] assms by simp_all
  then obtain st where "pass1 m1 dfp = Inr st" using pass1_returns by blast
  then show ?thesis by (simp add: predict_def pf Let_def case_prod_beta)
qed

lemma example_predict: "fst (predict example_model example_frame) = Inr example_out"
  by code_simp


lemma example_pass1:
  "pass1 (fst (prepare_features example_model example_frame))
         (snd (prepare_features example_model example_frame))
   = Inr example_pass1_state"
  by code_simp

text \<open>
  Claim C1 (ceiling invariant). Whenever \<open>predict\<close> returns a table, it has one final
  value per input row, and every final value is a number not above \<open>effort_limit\<close>,
  whatever mix of missing, over-limit and normal rows the input holds.
\<close>

theorem predict_ceiling_invariant:
  assumes "fst (predict m df) = Inr out"
  shows "length (effortExpense_final out) = length (effortExpense df) \<and>
         (\<forall>i<length (effortExpense_final out).
            \<exists>v. effortExpense_final out ! i = Some v \<and> v \<le> effort_limit m)"
proof -
  let ?m1 = "fst (prepare_features m df)" and ?dfp = "snd (prepare_features m df)"
  have keep: "effort_limit ?m1 = effort_limit m" "effortExpense ?dfp = effortExpense df"
    using prepare_features_keeps [of m df ?m1 ?dfp] by simp_all
  have p1: "pass1 ?m1 ?dfp = Inr (effortExpense_predicted out, effortExpense_final out)"
    using predict_Inr [OF assms] by blast
  have len: "length (effortExpense_final out) = length (effortExpense df)"
    using pass1_char [OF p1] keep by simp
  have "\<forall>i<length (effortExpense_final out).
          \<exists>v. effortExpense_final out ! i = Some v \<and> v \<le> effort_limit m"
  proof (intro allI impI)
    fix i assume "i < length (effortExpense_final out)"
    then have "i < length (effortExpense ?dfp)" using len keep by simp
    from pass1_final_bounded [OF p1 this] keep
    show "\<exists>v. effortExpense_final out ! i = Some v \<and> v \<le> effort_limit m" by simp
  qed
  with len show ?thesis by blast
qed

theorem predict_ceiling_invariant_witness:
  "fst (predict example_model example_frame) = Inr example_out \<and>
   length (effortExpense_final example_out) = length (effortExpense example_frame) \<and>
   (\<exists>v. effortExpense_final example_out ! 1 = Some v \<and> v \<le> effort_limit example_model) \<and>
   (\<exists>v. effortExpense_final example_out ! 2 = Some v \<and> v \<le> effort_limit example_model)"
proof -
  have all: "length (effortExpense_final example_out) = length (effortExpense example_frame) \<and>
      (\<forall>i<length (effortExpense_final example_out).
         \<exists>v. effortExpense_final example_out ! i = Some v \<and> v \<le> effort_limit example_model)"
    by (rule predict_ceiling_invariant [OF example_predict])
  have "(1::nat) < length (effortExpense_final example_out)"
       "(2::nat) < length (effortExpense_final example_out)"
    by (simp_all add: example_out_def)
  with all example_predict show ?thesis by blast
qed

text \<open>
  Claim C2 (over-limit truncation). For a row whose original target exceeds the limit, the
  final value is exactly the limit, whatever the regressor returns; the predicted column
  holds the regressor's raw output for that row (position \<open>k\<close> of the batch) clipped to
  \<open>[0, limit]\<close>, which is at most the limit.
\<close>

theorem predict_over_limit_truncation:
  assumes out: "fst (predict m df) = Inr out"
    and i: "i < length (effortExpense df)"
    and over: "effortExpense df ! i = Some t" "t > effort_limit m"
  defines "m1 \<equiv> fst (prepare_features m df)" and "dfp \<equiv> snd (prepare_features m df)"
  defines "idxs \<equiv> prediction_rows (needs_flags (effort_limit m) (effortExpense df))"
  shows "effortExpense_final out ! i = Some (effort_limit m) \<and>
         (\<exists>raw k. raw_predictions m1 dfp idxs = Inr raw \<and> k < length idxs \<and> idxs ! k = i \<and>
            effortExpense_predicted out ! i = Some (np_clip (raw ! k) 0 (effort_limit m)) \<and>
            np_clip (raw ! k) 0 (effort_limit m) \<le> effort_limit m)"
proof -
  have keep: "effort_limit m1 = effort_limit m" "effortExpense dfp = effortExpense df"
    using prepare_features_keeps [of m df m1 dfp] by (simp_all add: m1_def dfp_def)
  have p1: "pass1 m1 dfp = Inr (effortExpense_predicted out, effortExpense_final out)"
    using predict_Inr [OF out] by (simp add: m1_def dfp_def)
  have needs: "needs_flags (effort_limit m) (effortExpense df) ! i"
    using i over by (simp add: nth_needs_flags gt_limit_def)
  then obtain k where k: "k < length idxs" "idxs ! k = i"
    using prediction_rows_nth_ex [of i "needs_flags (effort_limit m) (effortExpense df)"] i
    by (auto simp: length_needs_flags idxs_def)
  from pass1_char [OF p1] k keep obtain raw where raw: "raw_predictions m1 dfp idxs = Inr raw"
    "effortExpense_predicted out ! i = Some (np_clip (raw ! k) 0 (effort_limit m))"
    "effortExpense_final out ! i =
       (if isna (effortExpense df ! i) then Some (np_clip (raw ! k) 0 (effort_limit m))
        else Some (effort_limit m))"
    unfolding idxs_def by force
  have "effortExpense_final out ! i = Some (effort_limit m)"
    using raw(3) over by (simp add: isna_def)
  with raw(1,2) k show ?thesis using np_clip_le by blast
qed

theorem predict_over_limit_truncation_witness:
  "fst (predict example_model example_frame) = Inr example_out \<and>
   (2::nat) < length (effortExpense example_frame) \<and>
   effortExpense example_frame ! 2 = Some 45 \<and> (45::real) > effort_limit example_model \<and>
   effortExpense_final example_out ! 2 = Some 30 \<and>
   effortExpense_predicted example_out ! 2 = Some 0"
proof -
  have i: "(2::nat) < length (effortExpense example_frame)" by (simp add: example_frame_def)
  have t: "effortExpense example_frame ! 2 = Some 45" by (simp add: example_frame_def)
  have gt: "(45::real) > effort_limit example_model" by (simp add: example_model_def)
  have "effortExpense_final example_out ! 2 = Some (effort_limit example_model)"
    using predict_over_limit_truncation [OF example_predict i t gt] by blast
  then show ?thesis
    using example_predict i t gt by (simp add: example_model_def example_out_def)
qed

text \<open>
  Claim C3 (passthrough). A row whose target is neither missing nor above the limit is not
  flagged as needing a prediction, and its final (and predicted) value is the original
  target: neither the loop nor the two sweeps touch it.
\<close>

theorem predict_passthrough:
  assumes out: "fst (predict m df) = Inr out"
    and i: "i < length (effortExpense df)"
    and normal: "\<not> isna (effortExpense df ! i)" "\<not> gt_limit (effort_limit m) (effortExpense df ! i)"
  shows "\<not> needs_prediction out ! i \<and>
         effortExpense_final out ! i = effortExpense df ! i \<and>
         effortExpense_predicted out ! i = effortExpense df ! i"
proof -
  let ?m1 = "fst (prepare_features m df)" and ?dfp = "snd (prepare_features m df)"
  have keep: "effort_limit ?m1 = effort_limit m" "effortExpense ?dfp = effortExpense df"
    using prepare_features_keeps [of m df ?m1 ?dfp] by simp_all
  have p1: "pass1 ?m1 ?dfp = Inr (effortExpense_predicted out, effortExpense_final out)"
    and nd: "needs_prediction out = needs_flags (effort_limit m) (effortExpense df)"
    using predict_Inr [OF out] by blast+
  have nn: "\<not> needs_flags (effort_limit m) (effortExpense df) ! i"
    using i normal by (simp add: nth_needs_flags)
  have "effortExpense_predicted out ! i = effortExpense ?dfp ! i \<and>
        effortExpense_final out ! i = effortExpense ?dfp ! i"
    using pass1_char [OF p1] i nn keep by simp
  then show ?thesis using nn nd keep by simp
qed

theorem predict_passthrough_witness:
  "fst (predict example_model example_frame) = Inr example_out \<and>
   (0::nat) < length (effortExpense example_frame) \<and>
   \<not> isna (effortExpense example_frame ! 0) \<and>
   \<not> gt_limit (effort_limit example_model) (effortExpense example_frame ! 0) \<and>
   effortExpense_final example_out ! 0 = Some 10"
proof -
  have i: "(0::nat) < length (effortExpense example_frame)" by (simp add: example_frame_def)
  have a: "\<not> isna (effortExpense example_frame ! 0)" by (simp add: example_frame_def isna_def)
  have b: "\<not> gt_limit (effort_limit example_model) (effortExpense example_frame ! 0)"
    by (simp add: example_frame_def example_model_def gt_limit_def)
  have "effortExpense_final example_out ! 0 = effortExpense example_frame ! 0"
    using predict_passthrough [OF example_predict i a b] by blast
  then show ?thesis using example_predict i a b by (simp add: example_frame_def)
qed

text \<open>
  Claim C8 (pass 2 is unreachable). After pass 1, every row that needed a prediction holds
  a predicted value that is at most the limit, so \<open>high_predictions\<close> is empty and the
  validation sweep returns its input unchanged: the force-cap branch is never taken.
\<close>

theorem validation_sweep_unreachable:
  assumes "pass1 m df = Inr st"
  defines "idxs \<equiv> prediction_rows (needs_flags (effort_limit m) (effortExpense df))"
  shows "(\<forall>idx\<in>set idxs. \<exists>v. fst st ! idx = Some v \<and> v \<le> effort_limit m) \<and>
         high_predictions (effort_limit m) idxs (fst st) = [] \<and>
         validation_sweep (effort_limit m) idxs st = st"
proof -
  obtain pred fin where st: "st = (pred, fin)" by (cases st)
  have p1: "pass1 m df = Inr (pred, fin)" using assms(1) st by simp
  have a: "\<forall>idx\<in>set idxs. \<exists>v. fst st ! idx = Some v \<and> v \<le> effort_limit m"
    using pass1_predicted_bounded [OF p1] st idxs_def by simp
  have b: "high_predictions (effort_limit m) idxs (fst st) = []"
    using pass1_no_high_predictions [OF p1] st idxs_def by simp
  then have "validation_sweep (effort_limit m) idxs st = st"
    by (simp add: validation_sweep_def)
  with a b show ?thesis by blast
qed

theorem validation_sweep_unreachable_witness:
  "pass1 (fst (prepare_features example_model example_frame))
         (snd (prepare_features example_model example_frame)) = Inr example_pass1_state \<and>
   prediction_rows (needs_flags 30 (effortExpense example_frame)) = [1, 2, 3] \<and>
   high_predictions 30 [1, 2, 3] (fst example_pass1_state) = []"
proof -
  have lim: "effort_limit (fst (prepare_features example_model example_frame)) = 30"
    by (simp add: prepare_features_def example_model_def Let_def)
  have tgt: "effortExpense (snd (prepare_features example_model example_frame))
               = effortExpense example_frame"
    by (simp add: prepare_features_def Let_def)
  have rows: "prediction_rows (needs_flags 30 (effortExpense example_frame)) = [1, 2, 3]"
    by code_simp
  have "high_predictions (effort_limit (fst (prepare_features example_model example_frame)))
          (prediction_rows (needs_flags (effort_limit (fst (prepare_features example_model example_frame)))
             (effortExpense (snd (prepare_features example_model example_frame)))))
          (fst example_pass1_state) = []"
    using validation_sweep_unreachable [OF example_pass1] by blast
  then have "high_predictions 30 [1, 2, 3] (fst example_pass1_state) = []"
    by (simp only: lim tgt rows)
  then show ?thesis using example_pass1 rows by simp
qed

section \<open>Properties of the registry\<close>

lemma storage_save_model_active:
  "filter is_active (models (snd (storage_save_model d now name mtype path mt fcount samples cap)))
   = [\<lparr>entry_id = fst (storage_save_model d now name mtype path mt fcount samples cap),
       model_name = name, model_type = mtype, file_path = path, created_at = now,
       updated_at = now, entry_metrics = mt, feature_count = fcount,
       entry_training_samples = samples, entry_effort_limit = cap, is_active = True\<rparr>]"
proof -
  have "filter is_active (filter (\<lambda>r. model_name r \<noteq> name)
          (map (\<lambda>r. r\<lparr>is_active := False\<rparr>) (models d))) = []"
    by (induction "models d") (simp_all add: filter_empty_conv)
  then show ?thesis by (simp add: storage_save_model_def Let_def)
qed

lemma fold_max_ge: "fold max xs (a::nat) \<ge> a \<and> (\<forall>x\<in>set xs. x \<le> fold max xs a)"
proof (induction xs arbitrary: a)
  case Nil
  show ?case by simp
next
  case (Cons x xs)
  have "max x a \<le> fold max xs (max x a)" using Cons.IH by blast
  then show ?case using Cons.IH [of "max x a"] by auto
qed

lemma storage_save_model_fresh_id:
  "\<forall>r\<in>set (models d). entry_id r < fst (storage_save_model d now name mtype path mt fcount samples cap)"
  using fold_max_ge [of "models_seq d" "map entry_id (models d)"]
  by (auto simp: storage_save_model_def Let_def less_Suc_eq_le)

lemma storage_save_model_last:
  "models (snd (storage_save_model d now name mtype path mt fcount samples cap)) \<noteq> [] \<and>
   last (models (snd (storage_save_model d now name mtype path mt fcount samples cap)))
   = \<lparr>entry_id = fst (storage_save_model d now name mtype path mt fcount samples cap),
       model_name = name, model_type = mtype, file_path = path, created_at = now,
       updated_at = now, entry_metrics = mt, feature_count = fcount,
       entry_training_samples = samples, entry_effort_limit = cap, is_active = True\<rparr>"
  by (simp add: storage_save_model_def Let_def)

lemma get_active_model_single:
  "filter is_active (models d) = [e] \<Longrightarrow> get_active_model d = Some e"
  by (simp add: get_active_model_def)

lemma delete_model_rows:
  "models (fst (snd (delete_model d fs i))) = filter (\<lambda>r. entry_id r \<noteq> i) (models d)"
proof (cases "find (\<lambda>r. entry_id r = i) (models d)")
  case None
  then have "\<forall>r\<in>set (models d). entry_id r \<noteq> i" by (auto simp: find_None_iff)
  then have "filter (\<lambda>r. entry_id r \<noteq> i) (models d) = models d" by (simp only: filter_True)
  with None show ?thesis by (simp add: delete_model_def)
next
  case (Some r)
  then show ?thesis by (simp add: delete_model_def)
qed

lemma delete_model_found:
  "fst (delete_model d fs i) = (\<exists>r\<in>set (models d). entry_id r = i)"
proof (cases "find (\<lambda>r. entry_id r = i) (models d)")
  case None
  then have "\<not> (\<exists>r\<in>set (models d). entry_id r = i)" by (simp add: find_None_iff)
  moreover have "\<not> fst (delete_model d fs i)" using None by (simp add: delete_model_def)
  ultimately show ?thesis by blast
next
  case (Some r)
  then have "r \<in> set (models d) \<and> entry_id r = i"
    by (auto simp: find_Some_iff)
  moreover have "fst (delete_model d fs i)" using Some by (simp add: delete_model_def)
  ultimately show ?thesis by blast
qed


lemma run_saves_snoc: "run_saves d (cs @ [c]) = run_save c (run_saves d cs)"
  by (simp add: run_saves_def)

lemma save_then_delete_no_active:
  "fst (delete_model (snd (storage_save_model d now name mtype path mt fcount samples cap)) fs
          (fst (storage_save_model d now name mtype path mt fcount samples cap))) \<and>
   active_models (fst (snd (delete_model
       (snd (storage_save_model d now name mtype path mt fcount samples cap)) fs
       (fst (storage_save_model d now name mtype path mt fcount samples cap))))) = 0"
proof -
  let ?r = "storage_save_model d now name mtype path mt fcount samples cap"
  let ?e = "\<lparr>entry_id = fst ?r, model_name = name, model_type = mtype, file_path = path,
       created_at = now, updated_at = now, entry_metrics = mt, feature_count = fcount,
       entry_training_samples = samples, entry_effort_limit = cap, is_active = True\<rparr>"
  have act: "filter is_active (models (snd ?r)) = [?e]" by (rule storage_save_model_active)
  then have "?e \<in> set (filter is_active (models (snd ?r)))" by simp
  then have mem: "?e \<in> set (models (snd ?r))" by simp
  have "entry_id ?e = fst ?r" by simp
  with mem have found: "fst (delete_model (snd ?r) fs (fst ?r))"
    unfolding delete_model_found by blast
  have "filter is_active (models (fst (snd (delete_model (snd ?r) fs (fst ?r)))))
        = filter (\<lambda>r. entry_id r \<noteq> fst ?r) (filter is_active (models (snd ?r)))"
    unfolding delete_model_rows by (simp add: conj_commute)
  also have "\<dots> = []" unfolding act by simp
  finally show ?thesis using found by (simp add: active_models_def)
qed

lemma storage_save_model_butlast:
  "\<forall>r\<in>set (butlast (models (snd (storage_save_model d now name mtype path mt fcount samples cap)))).
     entry_id r < fst (storage_save_model d now name mtype path mt fcount samples cap)"
proof
  fix r
  assume "r \<in> set (butlast (models (snd (storage_save_model d now name mtype path mt fcount samples cap))))"
  then have "r \<in> set (filter (\<lambda>r. model_name r \<noteq> name)
                   (map (\<lambda>r. r\<lparr>is_active := False\<rparr>) (models d)))"
    by (simp add: storage_save_model_def Let_def)
  then obtain r0 where r0: "r0 \<in> set (models d)" "r = r0\<lparr>is_active := False\<rparr>" by auto
  have "entry_id r0 < fst (storage_save_model d now name mtype path mt fcount samples cap)"
    using storage_save_model_fresh_id r0(1) by blast
  then show "entry_id r < fst (storage_save_model d now name mtype path mt fcount samples cap)"
    by (simp add: r0(2))
qed

lemma storage_save_model_summary:
  fixes d now name mtype path mt fcount samples cap
  defines "D \<equiv> snd (storage_save_model d now name mtype path mt fcount samples cap)"
  shows "filter is_active (models D) = [last (models D)] \<and>
         active_models D = 1 \<and>
         get_active_model D = Some (last (models D)) \<and>
         (\<forall>r\<in>set (butlast (models D)). entry_id r < entry_id (last (models D))) \<and>
         model_name (last (models D)) = name \<and> file_path (last (models D)) = path \<and>
         updated_at (last (models D)) = now"
proof -
  have lst: "last (models D)
     = \<lparr>entry_id = fst (storage_save_model d now name mtype path mt fcount samples cap),
       model_name = name, model_type = mtype, file_path = path, created_at = now,
       updated_at = now, entry_metrics = mt, feature_count = fcount,
       entry_training_samples = samples, entry_effort_limit = cap, is_active = True\<rparr>"
    unfolding D_def using storage_save_model_last by blast
  have act: "filter is_active (models D) = [last (models D)]"
    unfolding lst unfolding D_def by (rule storage_save_model_active)
  have one: "active_models D = 1" unfolding active_models_def act by simp
  have gam: "get_active_model D = Some (last (models D))"
    by (rule get_active_model_single [OF act])
  have id: "entry_id (last (models D))
              = fst (storage_save_model d now name mtype path mt fcount samples cap)"
    unfolding lst by simp
  have older: "\<forall>r\<in>set (butlast (models D)). entry_id r < entry_id (last (models D))"
    unfolding id unfolding D_def by (rule storage_save_model_butlast)
  have flds: "model_name (last (models D)) = name" "file_path (last (models D)) = path"
    "updated_at (last (models D)) = now"
    unfolding lst by simp_all
  from act one gam older flds show ?thesis by blast
qed


lemma run_saves_last:
  assumes "calls \<noteq> []"
  shows "\<exists>d0 mtype mt fcount samples cap.
           run_saves d calls
           = snd (storage_save_model d0 (fst (last calls)) (fst (snd (last calls))) mtype
                    (fst (snd (snd (snd (last calls))))) mt fcount samples cap)"
proof -
  from assms obtain cs c where calls: "calls = cs @ [c]" by (metis rev_exhaust)
  obtain now name mtype path mt fcount rest
    where c7: "c = (now, name, mtype, path, mt, fcount, rest)"
    by (cases c)
  obtain samples cap where rest: "rest = (samples, cap)" by (cases rest)
  have "run_saves d calls
        = snd (storage_save_model (run_saves d cs) now name mtype path mt fcount samples cap)"
    by (simp add: calls run_saves_snoc run_save_def c7 rest)
  moreover have "fst (last calls) = now" "fst (snd (last calls)) = name"
    "fst (snd (snd (snd (last calls)))) = path"
    by (simp_all add: calls c7)
  ultimately show ?thesis by metis
qed

text \<open>
  Claim C5 (single active entry). With no save, a fresh registry has no active entry.
  After any non-empty sequence of saves, from any database, exactly one entry is active:
  the last row of the table, which holds the name, the path and the timestamp of the last
  call and has the greatest id. \<open>delete_model\<close> leaves as active exactly the formerly active
  rows that it does not remove, so it never makes a row active; deleting the entry that was
  just saved leaves no active entry at all.
\<close>

theorem registry_single_active:
  "active_models (run_saves init_database []) = 0 \<and>
   (calls \<noteq> [] \<longrightarrow>
      filter is_active (models (run_saves d calls)) = [last (models (run_saves d calls))] \<and>
      active_models (run_saves d calls) = 1 \<and>
      get_active_model (run_saves d calls) = Some (last (models (run_saves d calls))) \<and>
      (\<forall>r\<in>set (butlast (models (run_saves d calls))).
          entry_id r < entry_id (last (models (run_saves d calls)))) \<and>
      model_name (last (models (run_saves d calls))) = fst (snd (last calls)) \<and>
      file_path (last (models (run_saves d calls))) = fst (snd (snd (snd (last calls)))) \<and>
      updated_at (last (models (run_saves d calls))) = fst (last calls)) \<and>
   filter is_active (models (fst (snd (delete_model d fs i))))
     = filter (\<lambda>r. entry_id r \<noteq> i) (filter is_active (models d)) \<and>
   active_models (fst (snd (delete_model d fs i))) \<le> active_models d \<and>
   fst (delete_model (snd (storage_save_model d now name mtype path mt fcount samples cap)) fs
          (fst (storage_save_model d now name mtype path mt fcount samples cap))) \<and>
   active_models (fst (snd (delete_model
       (snd (storage_save_model d now name mtype path mt fcount samples cap)) fs
       (fst (storage_save_model d now name mtype path mt fcount samples cap))))) = 0"
proof -
  have none: "active_models (run_saves init_database []) = 0"
    by (simp add: run_saves_def init_database_def active_models_def)
  have saves: "calls \<noteq> [] \<longrightarrow>
      filter is_active (models (run_saves d calls)) = [last (models (run_saves d calls))] \<and>
      active_models (run_saves d calls) = 1 \<and>
      get_active_model (run_saves d calls) = Some (last (models (run_saves d calls))) \<and>
      (\<forall>r\<in>set (butlast (models (run_saves d calls))).
          entry_id r < entry_id (last (models (run_saves d calls)))) \<and>
      model_name (last (models (run_saves d calls))) = fst (snd (last calls)) \<and>
      file_path (last (models (run_saves d calls))) = fst (snd (snd (snd (last calls)))) \<and>
      updated_at (last (models (run_saves d calls))) = fst (last calls)"
  proof
    assume "calls \<noteq> []"
    from run_saves_last [OF this, of d] obtain d0 mtype mt fcount samples cap where
      run: "run_saves d calls
           = snd (storage_save_model d0 (fst (last calls)) (fst (snd (last calls))) mtype
                    (fst (snd (snd (snd (last calls))))) mt fcount samples cap)"
      by blast
    show "filter is_active (models (run_saves d calls)) = [last (models (run_saves d calls))] \<and>
      active_models (run_saves d calls) = 1 \<and>
      get_active_model (run_saves d calls) = Some (last (models (run_saves d calls))) \<and>
      (\<forall>r\<in>set (butlast (models (run_saves d calls))).
          entry_id r < entry_id (last (models (run_saves d calls)))) \<and>
      model_name (last (models (run_saves d calls))) = fst (snd (last calls)) \<and>
      file_path (last (models (run_saves d calls))) = fst (snd (snd (snd (last calls)))) \<and>
      updated_at (last (models (run_saves d calls))) = fst (last calls)"
      unfolding run by (rule storage_save_model_summary)
  qed
  have del: "filter is_active (models (fst (snd (delete_model d fs i))))
     = filter (\<lambda>r. entry_id r \<noteq> i) (filter is_active (models d))"
    unfolding delete_model_rows by (simp add: conj_commute)
  have le: "active_models (fst (snd (delete_model d fs i))) \<le> active_models d"
    unfolding active_models_def del by (rule length_filter_le)
  note zero = save_then_delete_no_active [of d now name mtype path mt fcount samples cap fs]
  from none saves del le zero show ?thesis by (intro conjI) blast+
qed

theorem registry_single_active_witness:
  "example_calls \<noteq> [] \<and>
   active_models (run_saves init_database example_calls) = 1 \<and>
   model_name (last (models (run_saves init_database example_calls))) = ''CatBoost_Model_B'' \<and>
   file_path (last (models (run_saves init_database example_calls))) = ''b.pkl'' \<and>
   active_models (fst (snd (delete_model (run_saves init_database example_calls) Map.empty 2))) = 0"
proof -
  have ne: "example_calls \<noteq> []" by (simp add: example_calls_def)
  have lc: "fst (snd (last example_calls)) = ''CatBoost_Model_B''"
    "fst (snd (snd (snd (last example_calls)))) = ''b.pkl''"
    by (simp_all add: example_calls_def)
  have "active_models (run_saves init_database example_calls) = 1 \<and>
      model_name (last (models (run_saves init_database example_calls))) = fst (snd (last example_calls)) \<and>
      file_path (last (models (run_saves init_database example_calls)))
        = fst (snd (snd (snd (last example_calls))))"
    using registry_single_active [of example_calls init_database] ne by blast
  moreover have "active_models (fst (snd (delete_model (run_saves init_database example_calls) Map.empty 2))) = 0"
    by code_simp
  ultimately show ?thesis using ne lc by simp
qed

lemma get_active_model_None: "get_active_model d = None \<longleftrightarrow> active_models d = 0"
  by (simp add: get_active_model_def active_models_def split: list.splits)

lemma newest_mem: "newest b rs \<in> set (b # rs)"
  by (induction rs arbitrary: b) auto

lemma newest_ge: "updated_at b \<le> updated_at (newest b rs) \<and>
   (\<forall>r\<in>set rs. updated_at r \<le> updated_at (newest b rs))"
proof (induction rs arbitrary: b)
  case Nil
  show ?case by simp
next
  case (Cons r rs)
  let ?b = "if updated_at r > updated_at b then r else b"
  have "updated_at ?b \<le> updated_at (newest ?b rs)"
       "\<forall>x\<in>set rs. updated_at x \<le> updated_at (newest ?b rs)"
    using Cons.IH [of ?b] by blast+
  moreover have "updated_at b \<le> updated_at ?b" "updated_at r \<le> updated_at ?b" by simp_all
  ultimately show ?case by (simp del: if_split)
qed

lemma get_active_model_Some:
  assumes "get_active_model d = Some e"
  shows "e \<in> set (models d) \<and> is_active e \<and>
         (\<forall>r\<in>set (models d). is_active r \<longrightarrow> updated_at r \<le> updated_at e)"
proof -
  from assms obtain b rs where f: "filter is_active (models d) = b # rs" and e: "e = newest b rs"
    by (auto simp: get_active_model_def split: list.splits)
  have "e \<in> set (filter is_active (models d))" unfolding f e by (rule newest_mem)
  then have mem: "e \<in> set (models d)" "is_active e" by simp_all
  have "\<forall>r\<in>set (b # rs). updated_at r \<le> updated_at e"
    unfolding e using newest_ge [of b rs] by simp
  then have "\<forall>r\<in>set (filter is_active (models d)). updated_at r \<le> updated_at e"
    unfolding f .
  then have "\<forall>r\<in>set (models d). is_active r \<longrightarrow> updated_at r \<le> updated_at e" by simp
  with mem show ?thesis by blast
qed


lemma load_model_found:
  "fs path = Some a \<Longrightarrow>
   load_model m fs path =
     (Inr (), m\<lparr>model := art_model a, scaler := art_scaler a,
                feature_columns := art_feature_columns a,
                categorical_columns := art_categorical_columns a,
                effort_limit := art_effort_limit a,
                model_metrics := art_model_metrics a,
                is_trained := art_is_trained a\<rparr>)"
  by (simp add: load_model_def)

lemma load_model_missing:
  "fs path = None \<Longrightarrow>
   load_model m fs path = (Inl (FileNotFoundError (''Model file not found: '' @ path)), m)"
  by (simp add: load_model_def)

lemma processor_load_model_no_active:
  "get_active_model (registry w) = None \<Longrightarrow>
   processor_load_model p w None = (Inl no_active_model_error, p)"
  by (simp add: processor_load_model_def)

lemma processor_load_model_active:
  "get_active_model (registry w) = Some e \<Longrightarrow>
   processor_load_model p w None = processor_load_model p w (Some (file_path e))"
  by (simp add: processor_load_model_def)

lemma processor_load_model_path_found:
  "files w path = Some a \<Longrightarrow>
   processor_load_model p w (Some path) =
     (Inr (), p\<lparr>ml_model := snd (load_model (ml_model p) (files w) path),
                is_model_trained := True\<rparr>)"
  by (simp add: processor_load_model_def load_model_found)

lemma processor_load_model_path_missing:
  "files w path = None \<Longrightarrow>
   processor_load_model p w (Some path) =
     (Inl (FileNotFoundError (''Model file not found: '' @ path)), p)"
  by (simp add: processor_load_model_def load_model_missing)

text \<open>
  Claim C9 (loading the active model). Without a path and with no active entry in the
  registry, \<open>processor_load_model\<close> raises the no-active-model error and returns the
  processor unchanged. With an active entry, the registry yields an active entry whose
  update timestamp is greatest among the active ones, and the call is the load of that
  entry's file: when the file exists, the model's fields are those of the stored artifact
  and the trained flag is set; when it is missing, the load raises and the processor is
  unchanged.
\<close>

theorem load_active_model:
  "(active_models (registry w) = 0 \<longrightarrow>
      processor_load_model p w None = (Inl no_active_model_error, p)) \<and>
   (active_models (registry w) \<noteq> 0 \<longrightarrow>
      (\<exists>e. get_active_model (registry w) = Some e \<and>
           e \<in> set (models (registry w)) \<and> is_active e \<and>
           (\<forall>r\<in>set (models (registry w)). is_active r \<longrightarrow> updated_at r \<le> updated_at e) \<and>
           processor_load_model p w None = processor_load_model p w (Some (file_path e)) \<and>
           (\<forall>a. files w (file_path e) = Some a \<longrightarrow>
                processor_load_model p w None =
                  (Inr (), p\<lparr>ml_model := snd (load_model (ml_model p) (files w) (file_path e)),
                             is_model_trained := True\<rparr>) \<and>
                model (snd (load_model (ml_model p) (files w) (file_path e))) = art_model a \<and>
                scaler (snd (load_model (ml_model p) (files w) (file_path e))) = art_scaler a \<and>
                effort_limit (snd (load_model (ml_model p) (files w) (file_path e)))
                  = art_effort_limit a) \<and>
           (files w (file_path e) = None \<longrightarrow>
                processor_load_model p w None =
                  (Inl (FileNotFoundError (''Model file not found: '' @ file_path e)), p))))"
proof (intro conjI impI)
  assume "active_models (registry w) = 0"
  then have "get_active_model (registry w) = None" by (simp add: get_active_model_None)
  then show "processor_load_model p w None = (Inl no_active_model_error, p)"
    by (rule processor_load_model_no_active)
next
  assume "active_models (registry w) \<noteq> 0"
  then have "get_active_model (registry w) \<noteq> None" by (simp add: get_active_model_None)
  then obtain e where e: "get_active_model (registry w) = Some e" by blast
  note props = get_active_model_Some [OF e]
  note same = processor_load_model_active [OF e, of p]
  have found: "\<forall>a. files w (file_path e) = Some a \<longrightarrow>
                processor_load_model p w None =
                  (Inr (), p\<lparr>ml_model := snd (load_model (ml_model p) (files w) (file_path e)),
                             is_model_trained := True\<rparr>) \<and>
                model (snd (load_model (ml_model p) (files w) (file_path e))) = art_model a \<and>
                scaler (snd (load_model (ml_model p) (files w) (file_path e))) = art_scaler a \<and>
                effort_limit (snd (load_model (ml_model p) (files w) (file_path e)))
                  = art_effort_limit a"
  proof (intro allI impI)
    fix a assume a: "files w (file_path e) = Some a"
    show "processor_load_model p w None =
                  (Inr (), p\<lparr>ml_model := snd (load_model (ml_model p) (files w) (file_path e)),
                             is_model_trained := True\<rparr>) \<and>
                model (snd (load_model (ml_model p) (files w) (file_path e))) = art_model a \<and>
                scaler (snd (load_model (ml_model p) (files w) (file_path e))) = art_scaler a \<and>
                effort_limit (snd (load_model (ml_model p) (files w) (file_path e)))
                  = art_effort_limit a"
      unfolding same processor_load_model_path_found [OF a]
        load_model_found [of "files w" "file_path e" a "ml_model p", OF a] by simp
  qed
  have missing: "files w (file_path e) = None \<longrightarrow>
                processor_load_model p w None =
                  (Inl (FileNotFoundError (''Model file not found: '' @ file_path e)), p)"
    unfolding same using processor_load_model_path_missing by blast
  show "\<exists>e. get_active_model (registry w) = Some e \<and>
           e \<in> set (models (registry w)) \<and> is_active e \<and>
           (\<forall>r\<in>set (models (registry w)). is_active r \<longrightarrow> updated_at r \<le> updated_at e) \<and>
           processor_load_model p w None = processor_load_model p w (Some (file_path e)) \<and>
           (\<forall>a. files w (file_path e) = Some a \<longrightarrow>
                processor_load_model p w None =
                  (Inr (), p\<lparr>ml_model := snd (load_model (ml_model p) (files w) (file_path e)),
                             is_model_trained := True\<rparr>) \<and>
                model (snd (load_model (ml_model p) (files w) (file_path e))) = art_model a \<and>
                scaler (snd (load_model (ml_model p) (files w) (file_path e))) = art_scaler a \<and>
                effort_limit (snd (load_model (ml_model p) (files w) (file_path e)))
                  = art_effort_limit a) \<and>
           (files w (file_path e) = None \<longrightarrow>
                processor_load_model p w None =
                  (Inl (FileNotFoundError (''Model file not found: '' @ file_path e)), p))"
    using e props same found missing by (intro exI [of _ e] conjI) blast+
qed

lemma example_active_entry: "get_active_model (registry example_world) = Some example_entry"
  by code_simp

theorem load_active_model_witness:
  "active_models (registry example_empty_world) = 0 \<and>
   processor_load_model (init_data_processor 30 0.1) example_empty_world None
     = (Inl no_active_model_error, init_data_processor 30 0.1) \<and>
   active_models (registry example_world) \<noteq> 0 \<and>
   get_active_model (registry example_world) = Some example_entry \<and>
   files example_world (file_path example_entry) = Some example_artifact \<and>
   fst (processor_load_model (init_data_processor 30 0.1) example_world None) = Inr () \<and>
   model (ml_model (snd (processor_load_model (init_data_processor 30 0.1) example_world None)))
     = Some (Fitted example_regressor)"
proof -
  let ?p = "init_data_processor 30 0.1"
  have z: "active_models (registry example_empty_world) = 0"
    by (simp add: example_empty_world_def init_database_def active_models_def)
  have none: "processor_load_model ?p example_empty_world None = (Inl no_active_model_error, ?p)"
    using load_active_model [of example_empty_world ?p] z by blast
  have nz: "active_models (registry example_world) \<noteq> 0"
    using example_active_entry by (simp flip: get_active_model_None)
  have fl: "files example_world (file_path example_entry) = Some example_artifact"
    by (simp add: example_world_def example_entry_def)
  from load_active_model [of example_world ?p] nz obtain e where
    e: "get_active_model (registry example_world) = Some e" and
    ld: "\<forall>a. files example_world (file_path e) = Some a \<longrightarrow>
           processor_load_model ?p example_world None =
             (Inr (), ?p\<lparr>ml_model := snd (load_model (ml_model ?p) (files example_world) (file_path e)),
                         is_model_trained := True\<rparr>) \<and>
           model (snd (load_model (ml_model ?p) (files example_world) (file_path e))) = art_model a"
    by blast
  have ee: "e = example_entry" using e example_active_entry by simp
  have "processor_load_model ?p example_world None =
             (Inr (), ?p\<lparr>ml_model := snd (load_model (ml_model ?p) (files example_world)
                                               (file_path example_entry)),
                         is_model_trained := True\<rparr>) \<and>
        model (snd (load_model (ml_model ?p) (files example_world) (file_path example_entry)))
          = art_model example_artifact"
    using ld fl unfolding ee by blast
  then have "fst (processor_load_model ?p example_world None) = Inr ()"
    "model (ml_model (snd (processor_load_model ?p example_world None)))
       = Some (Fitted example_regressor)"
    by (simp_all add: example_artifact_def)
  with z none nz example_active_entry fl show ?thesis by blast
qed

section \<open>Properties of \<^verbatim>\<open>train_model\<close>\<close>

lemma length_dropna_values:
  "length (dropna_values tgt) = length (filter (\<lambda>c. \<not> isna c) tgt)"
  by (induction tgt) (auto simp: dropna_values_def isna_def)

lemma length_dropna_rows:
  "length (dropna_rows tgt) = length (filter (\<lambda>c. \<not> isna c) tgt)"
proof -
  have "filter (\<lambda>c. \<not> isna c) tgt = filter (\<lambda>c. \<not> isna c) (map ((!) tgt) [0..<length tgt])"
    by (simp only: map_nth)
  also have "\<dots> = map ((!) tgt) (filter ((\<lambda>c. \<not> isna c) \<circ> (!) tgt) [0..<length tgt])"
    by (rule filter_map)
  finally have "length (filter (\<lambda>c. \<not> isna c) tgt)
      = length (filter ((\<lambda>c. \<not> isna c) \<circ> (!) tgt) [0..<length tgt])"
    by simp
  then show ?thesis by (simp add: dropna_rows_def comp_def)
qed







lemma train_model_enough:
  assumes "\<not> length (dropna_rows (effortExpense df)) < 10"
  shows "train_model lib m df ts h f =
     (case train_test_split lib ts
             (fst (training_table (fst (prepare_features m df)) (snd (prepare_features m df))))
             (snd (training_table (fst (prepare_features m df)) (snd (prepare_features m df)))) of
        Inl msg \<Rightarrow> (Inl (LibraryError msg), fst (prepare_features m df))
      | Inr parts \<Rightarrow> fit_on_split lib (fst (prepare_features m df)) parts h f)"
proof -
  obtain m1 dfp where pf: "prepare_features m df = (m1, dfp)" by (cases "prepare_features m df")
  have "effortExpense dfp = effortExpense df" using prepare_features_keeps [OF pf] by simp
  with assms show ?thesis
    by (simp add: train_model_def pf case_prod_beta cong: sum.case_cong)
qed





lemma example_train:
  "fst (train_model example_library (init_effort_model 30) example_training_frame 0.2 False True)
   = Inr example_metrics"
  by code_simp


lemma boolean_index_Cons:
  "boolean_index (x # xs) (k # ks) = (if k then x # boolean_index xs ks else boolean_index xs ks)"
  by (simp add: boolean_index_def)

lemma boolean_index_Nil: "boolean_index [] ks = []" "boolean_index xs [] = []"
  by (simp_all add: boolean_index_def)

lemma boolean_index_map:
  "length xs = length ys \<Longrightarrow>
   zip (boolean_index xs (map P ys)) (boolean_index ys (map P ys))
   = filter (\<lambda>(x, v). P v) (zip xs ys)"
  by (induction xs ys rule: list_induct2) (simp_all add: boolean_index_Nil boolean_index_Cons)

lemma length_boolean_index:
  "length xs = length ys \<Longrightarrow>
   length (boolean_index xs (map P ys)) = length (boolean_index ys (map P ys))"
  by (induction xs ys rule: list_induct2) (simp_all add: boolean_index_Nil boolean_index_Cons)

lemma cap_target_zip:
  "length X = length y \<Longrightarrow>
   zip X (cap_target c y) = map (\<lambda>(x, v). (x, min v c)) (zip X y)"
  by (induction X y rule: list_induct2) (simp_all add: cap_target_def)

lemma map_snd_capped:
  "length X = length y \<Longrightarrow> map snd (map (\<lambda>(x, v). (x, min v c)) (zip X y)) = cap_target c y"
  by (induction X y rule: list_induct2) (simp_all add: cap_target_def)

lemma quantile_None: "quantile ys q = None \<longleftrightarrow> ys = []"
  by (simp add: quantile_def Let_def)

lemma training_rows_refine:
  fixes c :: real
  assumes len: "length X = length y"
  defines "yc \<equiv> cap_target c y"
  shows "zip (boolean_index X (outlier_mask yc)) (boolean_index yc (outlier_mask yc))
         = spec_training_rows c (zip X y)"
proof -
  have lenc: "length X = length yc" using len by (simp add: yc_def cap_target_def)
  have ms: "map snd (map (\<lambda>(x, v). (x, min v c)) (zip X y)) = yc"
    unfolding yc_def by (rule map_snd_capped [OF len])
  have zc: "map (\<lambda>(x, v). (x, min v c)) (zip X y) = zip X yc"
    unfolding yc_def by (rule cap_target_zip [OF len, symmetric])
  have ms2: "map snd (zip X yc) = yc" using lenc by simp
  show ?thesis
  proof (cases "quantile yc 0.25")
    case None
    then have "yc = []" by (simp add: quantile_None)
    have "spec_training_rows c (zip X y) = []"
      unfolding spec_training_rows_def Let_def ms None by simp
    then show ?thesis using \<open>yc = []\<close> by (simp add: boolean_index_Nil)
  next
    case (Some Q1)
    then have "yc \<noteq> []" using quantile_None [of yc "0.25"] by auto
    then obtain Q3 where Q3: "quantile yc 0.75 = Some Q3"
      using quantile_None [of yc "0.75"] by (cases "quantile yc 0.75") auto
    have ob: "outlier_mask yc
        = map (\<lambda>v. Q1 - 1.5 * (Q3 - Q1) \<le> v \<and> v \<le> Q3 + 1.5 * (Q3 - Q1)) yc"
      unfolding outlier_mask_def outlier_bounds_def Some Q3 Let_def by simp
    have "spec_training_rows c (zip X y)
        = filter (\<lambda>(x, v). Q1 - 1.5 * (Q3 - Q1) \<le> v \<and> v \<le> Q3 + 1.5 * (Q3 - Q1)) (zip X yc)"
      unfolding spec_training_rows_def Let_def zc ms2 Some Q3 by simp
    then show ?thesis
      unfolding ob boolean_index_map [OF lenc] by simp
  qed
qed

lemma length_training_X:
  "length (map (feature_row_at m df) (dropna_rows (effortExpense df)))
   = length (dropna_values (effortExpense df))"
  by (simp add: length_dropna_rows length_dropna_values)


lemma boolean_index_self: "boolean_index ys (map P ys) = filter P ys"
  by (induction ys) (simp_all add: boolean_index_Nil boolean_index_Cons)

lemma outlier_mask_bounds:
  assumes "quantile yc 0.25 = Some Q1" and "quantile yc 0.75 = Some Q3"
  shows "outlier_mask yc = map (\<lambda>v. Q1 - 1.5 * (Q3 - Q1) \<le> v \<and> v \<le> Q3 + 1.5 * (Q3 - Q1)) yc"
  unfolding outlier_mask_def outlier_bounds_def assms Let_def by simp

text \<open>
  Claim C7 (capping, then interquartile filter). Clipping the targets to the limit keeps
  every row that has a target and replaces each target by its minimum with the limit. The
  table built for the split is, row for row, the one the specification describes: the rows
  whose clipped target lies in the closed interval from \<open>Q1 - 1.5 IQR\<close> to \<open>Q3 + 1.5 IQR\<close>,
  the quartiles being taken on the clipped targets; the kept targets are exactly the
  clipped targets inside that interval. With at least 10 rows, \<open>train_model\<close> hands this
  table to the split and fits on what the split returns.
\<close>

theorem training_table_capped_iqr:
  "length (cap_target (effort_limit m) (dropna_values (effortExpense df)))
     = length (filter (\<lambda>c. \<not> isna c) (effortExpense df)) \<and>
   (\<forall>j<length (dropna_values (effortExpense df)).
      cap_target (effort_limit m) (dropna_values (effortExpense df)) ! j
        = min (dropna_values (effortExpense df) ! j) (effort_limit m)) \<and>
   length (fst (training_table m df)) = length (snd (training_table m df)) \<and>
   zip (fst (training_table m df)) (snd (training_table m df))
     = spec_training_rows (effort_limit m)
         (zip (map (feature_row_at m df) (dropna_rows (effortExpense df)))
              (dropna_values (effortExpense df))) \<and>
   (quantile (cap_target (effort_limit m) (dropna_values (effortExpense df))) 0.25 = Some Q1 \<and>
    quantile (cap_target (effort_limit m) (dropna_values (effortExpense df))) 0.75 = Some Q3 \<longrightarrow>
      snd (training_table m df)
        = filter (\<lambda>v. Q1 - 1.5 * (Q3 - Q1) \<le> v \<and> v \<le> Q3 + 1.5 * (Q3 - Q1))
            (cap_target (effort_limit m) (dropna_values (effortExpense df)))) \<and>
   (10 \<le> length (filter (\<lambda>c. \<not> isna c) (effortExpense df)) \<longrightarrow>
      train_model lib m df ts h f =
        (case train_test_split lib ts
                (fst (training_table (fst (prepare_features m df)) (snd (prepare_features m df))))
                (snd (training_table (fst (prepare_features m df)) (snd (prepare_features m df)))) of
           Inl msg \<Rightarrow> (Inl (LibraryError msg), fst (prepare_features m df))
         | Inr parts \<Rightarrow> fit_on_split lib (fst (prepare_features m df)) parts h f))"
proof -
  let ?y = "dropna_values (effortExpense df)"
  let ?X = "map (feature_row_at m df) (dropna_rows (effortExpense df))"
  let ?yc = "cap_target (effort_limit m) ?y"
  have len: "length ?X = length ?y" by (rule length_training_X)
  have lenc: "length ?X = length ?yc" using len by (simp add: cap_target_def)
  have a: "length ?yc = length (filter (\<lambda>c. \<not> isna c) (effortExpense df))"
    by (simp add: cap_target_def length_dropna_values)
  have b: "\<forall>j<length ?y. ?yc ! j = min (?y ! j) (effort_limit m)"
    by (simp add: cap_target_def)
  have tt: "training_table m df
      = (boolean_index ?X (outlier_mask ?yc), boolean_index ?yc (outlier_mask ?yc))"
    by (simp add: training_table_def Let_def)
  have c: "length (fst (training_table m df)) = length (snd (training_table m df))"
  proof (cases "outlier_bounds ?yc")
    case None
    then have "outlier_mask ?yc = map (\<lambda>v. False) ?yc"
      by (simp add: outlier_mask_def)
    then show ?thesis unfolding tt fst_conv snd_conv using length_boolean_index [OF lenc] by simp
  next
    case (Some bnd)
    obtain lo hi where "bnd = (lo, hi)" by (cases bnd)
    with Some have "outlier_mask ?yc = map (\<lambda>v. lo \<le> v \<and> v \<le> hi) ?yc"
      by (simp add: outlier_mask_def)
    then show ?thesis unfolding tt fst_conv snd_conv using length_boolean_index [OF lenc] by simp
  qed
  have d: "zip (fst (training_table m df)) (snd (training_table m df))
     = spec_training_rows (effort_limit m) (zip ?X ?y)"
    unfolding tt fst_conv snd_conv by (rule training_rows_refine [OF len])
  have e: "quantile ?yc 0.25 = Some Q1 \<and> quantile ?yc 0.75 = Some Q3 \<longrightarrow>
      snd (training_table m df)
        = filter (\<lambda>v. Q1 - 1.5 * (Q3 - Q1) \<le> v \<and> v \<le> Q3 + 1.5 * (Q3 - Q1)) ?yc"
  proof
    assume q: "quantile ?yc 0.25 = Some Q1 \<and> quantile ?yc 0.75 = Some Q3"
    then have "outlier_mask ?yc
        = map (\<lambda>v. Q1 - 1.5 * (Q3 - Q1) \<le> v \<and> v \<le> Q3 + 1.5 * (Q3 - Q1)) ?yc"
      using outlier_mask_bounds by blast
    then show "snd (training_table m df)
        = filter (\<lambda>v. Q1 - 1.5 * (Q3 - Q1) \<le> v \<and> v \<le> Q3 + 1.5 * (Q3 - Q1)) ?yc"
      unfolding tt snd_conv by (simp only: boolean_index_self)
  qed
  have f: "10 \<le> length (filter (\<lambda>c. \<not> isna c) (effortExpense df)) \<longrightarrow>
      train_model lib m df ts h f =
        (case train_test_split lib ts
                (fst (training_table (fst (prepare_features m df)) (snd (prepare_features m df))))
                (snd (training_table (fst (prepare_features m df)) (snd (prepare_features m df)))) of
           Inl msg \<Rightarrow> (Inl (LibraryError msg), fst (prepare_features m df))
         | Inr parts \<Rightarrow> fit_on_split lib (fst (prepare_features m df)) parts h f)"
  proof
    assume "10 \<le> length (filter (\<lambda>c. \<not> isna c) (effortExpense df))"
    then have "\<not> length (dropna_rows (effortExpense df)) < 10"
      by (simp add: length_dropna_rows)
    then show "train_model lib m df ts h f =
        (case train_test_split lib ts
                (fst (training_table (fst (prepare_features m df)) (snd (prepare_features m df))))
                (snd (training_table (fst (prepare_features m df)) (snd (prepare_features m df)))) of
           Inl msg \<Rightarrow> (Inl (LibraryError msg), fst (prepare_features m df))
         | Inr parts \<Rightarrow> fit_on_split lib (fst (prepare_features m df)) parts h f)"
      by (rule train_model_enough)
  qed
  from a b c d e f show ?thesis by blast
qed

lemma example_capped:
  "cap_target (effort_limit (init_effort_model 30)) (dropna_values (effortExpense example_training_frame))
   = [6, 7, 8, 8, 8, 9, 9, 10, 30, 1]"
  by code_simp

lemma example_quartiles:
  "quantile [6, 7, 8, 8, 8, 9, 9, 10, 30, 1] 0.25 = Some (29 / 4) \<and>
   quantile [6, 7, 8, 8, 8, 9, 9, 10, 30, 1] 0.75 = Some 9"
  by code_simp

theorem training_table_capped_iqr_witness:
  "cap_target (effort_limit (init_effort_model 30)) (dropna_values (effortExpense example_training_frame))
     = [6, 7, 8, 8, 8, 9, 9, 10, 30, 1] \<and>
   quantile [6, 7, 8, 8, 8, 9, 9, 10, 30, 1] 0.25 = Some (29 / 4) \<and>
   quantile [6, 7, 8, 8, 8, 9, 9, 10, 30, 1] 0.75 = Some 9 \<and>
   snd (training_table (init_effort_model 30) example_training_frame) = [6, 7, 8, 8, 8, 9, 9, 10]"
proof -
  have "snd (training_table (init_effort_model 30) example_training_frame)
        = filter (\<lambda>v. 29 / 4 - 1.5 * (9 - 29 / 4) \<le> v \<and> v \<le> 9 + 1.5 * (9 - 29 / 4))
            (cap_target (effort_limit (init_effort_model 30))
               (dropna_values (effortExpense example_training_frame)))"
    using training_table_capped_iqr [of "init_effort_model 30" example_training_frame "29 / 4" 9]
      example_quartiles
    unfolding example_capped by blast
  then have "snd (training_table (init_effort_model 30) example_training_frame)
        = [6, 7, 8, 8, 8, 9, 9, 10]"
    unfolding example_capped by simp
  with example_capped example_quartiles show ?thesis by blast
qed

section \<open>Numeric imputation at prediction time\<close>

lemma map_of_fill_numeric:
  "map_of (fill_numeric cols) c
   = map_option (\<lambda>vs. if c \<in> set numerical_columns then fillna (median vs) vs else vs)
       (map_of cols c)"
  by (induction cols) (auto simp: fill_numeric_def)

lemma nth_fillna:
  "i < length vs \<Longrightarrow> fillna v vs ! i = (case vs ! i of None \<Rightarrow> v | Some x \<Rightarrow> Some x)"
  by (cases v) (auto simp: fillna_def split: option.splits)

lemma length_fillna: "length (fillna v vs) = length vs"
  by (cases v) (simp_all add: fillna_def)

text \<open>
  Claim C4, as amended. During prediction a missing value of a numeric covariate is
  replaced by the median of that column in the table being predicted (and stays missing
  when the whole column is missing): the numeric columns of the output are those of the
  input filled by \<open>fill_numeric\<close>, and no field of the model takes part.
\<close>

theorem predict_imputes_batch_median:
  assumes out: "fst (predict m df) = Inr out"
    and c: "c \<in> set numerical_columns"
    and col: "map_of (numeric_cols df) c = Some vs"
    and i: "i < length vs"
  shows "numeric_cols out = fill_numeric (numeric_cols df) \<and>
         cell_at (numeric_cols out) c i = (case vs ! i of None \<Rightarrow> median vs | Some x \<Rightarrow> Some x)"
proof -
  have "numeric_cols out = numeric_cols (snd (prepare_features m df))"
    using predict_Inr [OF out] by blast
  then have nc: "numeric_cols out = fill_numeric (numeric_cols df)"
    by (simp add: prepare_features_def Let_def)
  have "map_of (numeric_cols out) c = Some (fillna (median vs) vs)"
    unfolding nc map_of_fill_numeric col using c by simp
  then have "cell_at (numeric_cols out) c i = fillna (median vs) vs ! i"
    using i by (simp add: cell_at_def length_fillna)
  with nc show ?thesis using nth_fillna [OF i] by simp
qed

theorem predict_imputes_batch_median_witness:
  "fst (predict example_model example_frame) = Inr example_out \<and>
   ''effortTimeCosts'' \<in> set numerical_columns \<and>
   map_of (numeric_cols example_frame) ''effortTimeCosts''
     = Some [Some 12, Some 50, Some (-3), None] \<and>
   median [Some 12, Some 50, Some (-3), None] = Some 12 \<and>
   cell_at (numeric_cols example_out) ''effortTimeCosts'' 3 = Some 12"
proof -
  have c: "''effortTimeCosts'' \<in> set numerical_columns" by (simp add: numerical_columns_def)
  have col: "map_of (numeric_cols example_frame) ''effortTimeCosts''
     = Some [Some 12, Some 50, Some (-3), None]"
    by (simp add: example_frame_def)
  have i: "(3::nat) < length [Some 12, Some 50, Some (-3), None :: real option]" by simp
  have med: "median [Some 12, Some 50, Some (-3), None] = Some 12" by code_simp
  have "cell_at (numeric_cols example_out) ''effortTimeCosts'' 3
        = (case [Some 12, Some 50, Some (-3), None] ! 3 of None \<Rightarrow>
             median [Some 12, Some 50, Some (-3), None] | Some x \<Rightarrow> Some x)"
    using predict_imputes_batch_median [OF example_predict c col i] by blast
  then have "cell_at (numeric_cols example_out) ''effortTimeCosts'' 3 = Some 12"
    unfolding med by simp
  with example_predict c col med show ?thesis by blast
qed

lemma example_trained_predict:
  "fst (predict (snd (train_model example_library (init_effort_model 30)
                        example_training_frame 0.2 False True)) example_frame)
   = Inr example_out"
  by code_simp

lemma example_not_training_median:
  "\<not> imputes_training_median example_training_frame example_frame example_out"
  by code_simp

text \<open>
  Claim C4, as stated, fails: a model trained on a table whose column
  \<^verbatim>\<open>effortTimeCosts\<close> has median 10 fills the missing cell of the predicted table with 12,
  the median of the predicted table's own column.
\<close>

theorem training_median_counterexample:
  "fst (train_model example_library (init_effort_model 30) example_training_frame 0.2 False True)
     = Inr example_metrics \<and>
   fst (predict (snd (train_model example_library (init_effort_model 30)
                        example_training_frame 0.2 False True)) example_frame)
     = Inr example_out \<and>
   map_of (numeric_cols example_training_frame) ''effortTimeCosts''
     = Some [Some 10, Some 10, Some 10, Some 10, Some 10, Some 10, Some 10, Some 10, Some 10, Some 10] \<and>
   median [Some 10, Some 10, Some 10, Some 10, Some 10, Some 10, Some 10, Some 10, Some 10, Some 10]
     = Some 10 \<and>
   cell_at (numeric_cols example_frame) ''effortTimeCosts'' 3 = None \<and>
   cell_at (numeric_cols example_out) ''effortTimeCosts'' 3 = Some 12 \<and>
   \<not> imputes_training_median example_training_frame example_frame example_out"
proof -
  have a: "map_of (numeric_cols example_training_frame) ''effortTimeCosts''
     = Some [Some 10, Some 10, Some 10, Some 10, Some 10, Some 10, Some 10, Some 10, Some 10, Some 10]"
    by (simp add: example_training_frame_def)
  have b: "median [Some 10, Some 10, Some 10, Some 10, Some 10, Some 10, Some 10, Some 10, Some 10, Some 10]
     = Some 10"
    by code_simp
  have c: "cell_at (numeric_cols example_frame) ''effortTimeCosts'' 3 = None"
    by (simp add: cell_at_def example_frame_def)
  have d: "cell_at (numeric_cols example_out) ''effortTimeCosts'' 3 = Some 12"
    by (simp add: cell_at_def example_out_def)
  from example_train example_trained_predict a b c d example_not_training_median
  show ?thesis by blast
qed

section \<open>Properties of the orchestrator\<close>

lemma raw_predictions_error_kind:
  "raw_predictions m df idxs = Inl e \<Longrightarrow> e \<noteq> not_trained_error"
  by (auto simp: raw_predictions_def Let_def not_trained_error_def
      split: if_splits option.splits sum.splits regressor.splits)

lemma pass1_error_kind: "pass1 m df = Inl e \<Longrightarrow> e \<noteq> not_trained_error"
  using raw_predictions_error_kind
  by (auto simp: pass1_def Let_def split: if_splits sum.splits)

lemma predict_error_kind: "fst (predict m df) \<noteq> Inl not_trained_error"
proof
  assume a: "fst (predict m df) = Inl not_trained_error"
  obtain m1 dfp where pf: "prepare_features m df = (m1, dfp)" by (cases "prepare_features m df")
  show False
  proof (cases "pass1 m1 dfp")
    case (Inl e)
    then have "fst (predict m df) = Inl e" by (simp add: predict_def pf Let_def)
    with a have "e = not_trained_error" by simp
    with pass1_error_kind [OF Inl] show False by simp
  next
    case (Inr st)
    then have "\<exists>out. fst (predict m df) = Inr out"
      by (simp add: predict_def pf Let_def case_prod_beta)
    with a show False by auto
  qed
qed

lemma predict_effort_expenses_trained:
  assumes "is_model_trained p"
  shows "fst (predict_effort_expenses p df) \<noteq> Inl not_trained_error"
proof -
  obtain r m' where pr: "predict (ml_model p) df = (r, m')" by (cases "predict (ml_model p) df")
  have "r \<noteq> Inl not_trained_error" using predict_error_kind [of "ml_model p" df] pr by simp
  then show ?thesis using assms pr
    by (cases r) (simp_all add: predict_effort_expenses_def)
qed

lemma processor_train_model_flag:
  assumes "fst (processor_train_model lib p df h f) = Inr mt"
  shows "is_model_trained (snd (processor_train_model lib p df h f))"
proof -
  obtain r m' where tr: "train_model lib (ml_model p) df 0.2 h f = (r, m')"
    by (cases "train_model lib (ml_model p) df 0.2 h f")
  show ?thesis using assms tr by (cases r) (simp_all add: processor_train_model_def)
qed

lemma processor_load_model_flag:
  assumes "fst (processor_load_model p w fp) = Inr u"
  shows "is_model_trained (snd (processor_load_model p w fp))"
  using assms
  by (auto simp: processor_load_model_def split: option.splits sum.splits prod.splits)

text \<open>
  Claim C10 (prediction needs a trained model). While the processor's trained flag is
  unset, \<open>predict_effort_expenses\<close> raises the not-trained error on every table, returns no
  table and leaves the processor as it was. After a training call or a load that
  returned, the flag is set and a prediction never raises that error.
\<close>

theorem predict_requires_trained_model:
  "(\<not> is_model_trained p \<longrightarrow> predict_effort_expenses p df = (Inl not_trained_error, p)) \<and>
   (fst (processor_train_model lib p df0 h f) = Inr mt \<longrightarrow>
      is_model_trained (snd (processor_train_model lib p df0 h f)) \<and>
      fst (predict_effort_expenses (snd (processor_train_model lib p df0 h f)) df)
        \<noteq> Inl not_trained_error) \<and>
   (fst (processor_load_model p w fp) = Inr u \<longrightarrow>
      is_model_trained (snd (processor_load_model p w fp)) \<and>
      fst (predict_effort_expenses (snd (processor_load_model p w fp)) df)
        \<noteq> Inl not_trained_error)"
proof (intro conjI impI)
  assume "\<not> is_model_trained p"
  then show "predict_effort_expenses p df = (Inl not_trained_error, p)"
    by (simp add: predict_effort_expenses_def)
next
  assume a: "fst (processor_train_model lib p df0 h f) = Inr mt"
  show "is_model_trained (snd (processor_train_model lib p df0 h f))"
    by (rule processor_train_model_flag [OF a])
  then show "fst (predict_effort_expenses (snd (processor_train_model lib p df0 h f)) df)
        \<noteq> Inl not_trained_error"
    by (rule predict_effort_expenses_trained)
next
  assume a: "fst (processor_load_model p w fp) = Inr u"
  show "is_model_trained (snd (processor_load_model p w fp))"
    by (rule processor_load_model_flag [OF a])
  then show "fst (predict_effort_expenses (snd (processor_load_model p w fp)) df)
        \<noteq> Inl not_trained_error"
    by (rule predict_effort_expenses_trained)
qed

lemma example_processor_train:
  "fst (processor_train_model example_library (init_data_processor 30 0.1)
          example_training_frame False True) = Inr example_metrics"
  by code_simp

lemma example_processor_load:
  "fst (processor_load_model (init_data_processor 30 0.1) example_world None) = Inr ()"
  by code_simp

theorem predict_requires_trained_model_witness:
  "\<not> is_model_trained (init_data_processor 30 0.1) \<and>
   predict_effort_expenses (init_data_processor 30 0.1) example_frame
     = (Inl not_trained_error, init_data_processor 30 0.1) \<and>
   fst (processor_train_model example_library (init_data_processor 30 0.1)
          example_training_frame False True) = Inr example_metrics \<and>
   is_model_trained (snd (processor_train_model example_library (init_data_processor 30 0.1)
          example_training_frame False True)) \<and>
   fst (predict_effort_expenses (snd (processor_train_model example_library
          (init_data_processor 30 0.1) example_training_frame False True)) example_frame)
     \<noteq> Inl not_trained_error \<and>
   fst (processor_load_model (init_data_processor 30 0.1) example_world None) = Inr () \<and>
   is_model_trained (snd (processor_load_model (init_data_processor 30 0.1) example_world None))"
proof -
  have nt: "\<not> is_model_trained (init_data_processor 30 0.1)"
    by (simp add: init_data_processor_def)
  note th = predict_requires_trained_model
    [of "init_data_processor 30 0.1" example_frame example_library example_training_frame
        False True example_metrics example_world None "()"]
  from th nt example_processor_train example_processor_load show ?thesis by blast
qed

end
